theory Spec2Isabelle
  imports Main "HOL-Library.Word" "HOL-Library.Sublist"
begin

section \<open>Security policy engine of picoclaw: modes, violations, configuration\<close>

text \<open>
  Go strings are immutable byte sequences; they are modelled as \<^typ>\<open>string\<close>, a list of
  8-bit characters, so a non-ASCII word is the list of its UTF-8 bytes, as in the
  source file.
\<close>

subsection \<open>pkg/security/policy.go: PolicyMode, Violation, GetMode\<close>

text \<open>\<^verbatim>\<open>type PolicyMode string\<close>: a mode is any string; three values are named.\<close>

type_synonym PolicyMode = string

definition ModeOff :: PolicyMode where
  "ModeOff = ''off''"

definition ModeBlock :: PolicyMode where
  "ModeBlock = ''block''"

definition ModeApprove :: PolicyMode where
  "ModeApprove = ''approve''"

text \<open>\<^verbatim>\<open>func (m PolicyMode) IsOff() bool { return m == "" || m == ModeOff }\<close>\<close>

definition IsOff :: "PolicyMode \<Rightarrow> bool" where
  "IsOff m = (m = '''' \<or> m = ModeOff)"

record Violation =
  Category :: string
  Tool :: string
  Action :: string
  Reason :: string
  RuleName :: string

text \<open>
  Modelled from the spec: \<^verbatim>\<open>config.SecurityConfig\<close> is declared in pkg/config, which is
  not among the sources. The spec gives one configured string to each of the four fixed
  categories and a configured approval timeout; the field names are the ones \<^verbatim>\<open>GetMode\<close>
  and \<^verbatim>\<open>requestApproval\<close> read, as \<^verbatim>\<open>policy_test.go\<close> also writes them. \<^verbatim>\<open>ApprovalTimeout\<close>
  is a Go \<^verbatim>\<open>int\<close>, since it is passed unconverted to
  \<^verbatim>\<open>formatApprovalMessage(v, timeoutSec int)\<close>; a Go \<^verbatim>\<open>int\<close> is taken at its 64-bit width
  (amd64, arm64, riscv64) and read as a signed word.
\<close>

record SecurityConfig =
  ExecGuard :: string
  SSRFProtection :: string
  PathValidation :: string
  SkillValidation :: string
  ApprovalTimeout :: "64 word"

text \<open>
  \<^verbatim>\<open>GetMode\<close>: the first switch selects the raw configured string of the category and
  returns \<^verbatim>\<open>ModeOff\<close> in its default branch; the second switch maps the raw string.
\<close>

definition rawMode :: "SecurityConfig \<Rightarrow> string \<Rightarrow> string option" where
  "rawMode config category =
     (if category = ''exec_guard'' then Some (ExecGuard config)
      else if category = ''ssrf'' then Some (SSRFProtection config)
      else if category = ''path_validation'' then Some (PathValidation config)
      else if category = ''skill_validation'' then Some (SkillValidation config)
      else None)"

definition GetMode :: "SecurityConfig \<Rightarrow> string \<Rightarrow> PolicyMode" where
  "GetMode config category =
     (case rawMode config category of
        None \<Rightarrow> ModeOff
      | Some raw \<Rightarrow>
          (if raw = ModeBlock then ModeBlock
           else if raw = ModeApprove then ModeApprove
           else ModeOff))"


section \<open>The Go standard library functions the engine calls\<close>

text \<open>
  \<^verbatim>\<open>strings.TrimSpace\<close>, \<^verbatim>\<open>strings.ToLower\<close>, the verbs of \<^verbatim>\<open>fmt\<close> and
  \<^verbatim>\<open>time.Duration\<close> belong to the Go distribution. They are written out here on
  bytes, following the library's own code, so that the engine's functions can be
  evaluated. Runes and byte values are integers. The case table of the Unicode database
  (\<^verbatim>\<open>unicode.CaseRanges\<close>, consulted for runes above \<^verbatim>\<open>0x7F\<close>) is the one piece taken as
  a parameter \<open>caseTable\<close>.
\<close>

subsection \<open>Go standard library: unicode/utf8\<close>

definition byte :: "char \<Rightarrow> int" where
  "byte c = of_char c"

definition RuneError :: int where
  "RuneError = 0xFFFD"

text \<open>The table \<^verbatim>\<open>first\<close> with \<^verbatim>\<open>acceptRanges\<close>: for a leading byte of a multi-byte
  sequence, the size of the sequence and the accepted range of its second byte.\<close>

definition first :: "int \<Rightarrow> (nat \<times> int \<times> int) option" where
  "first s0 =
     (if 0xC2 \<le> s0 \<and> s0 \<le> 0xDF then Some (2, 0x80, 0xBF)
      else if s0 = 0xE0 then Some (3, 0xA0, 0xBF)
      else if s0 = 0xED then Some (3, 0x80, 0x9F)
      else if 0xE1 \<le> s0 \<and> s0 \<le> 0xEF then Some (3, 0x80, 0xBF)
      else if s0 = 0xF0 then Some (4, 0x90, 0xBF)
      else if 0xF1 \<le> s0 \<and> s0 \<le> 0xF3 then Some (4, 0x80, 0xBF)
      else if s0 = 0xF4 then Some (4, 0x80, 0x8F)
      else None)"

text \<open>
  \<^verbatim>\<open>utf8.DecodeRuneInString\<close>: the first rune of \<open>s\<close> and its width in bytes; an
  invalid or truncated sequence gives \<^verbatim>\<open>(RuneError, 1)\<close>, the empty string
  \<^verbatim>\<open>(RuneError, 0)\<close>. The masks of the Go code are written as remainders.
\<close>

definition DecodeRuneInString :: "string \<Rightarrow> int \<times> nat" where
  "DecodeRuneInString s =
     (case s of
        [] \<Rightarrow> (RuneError, 0)
      | c0 # _ \<Rightarrow>
          (let s0 = byte c0 in
           if s0 < 0x80 then (s0, 1)
           else
             (case first s0 of
                None \<Rightarrow> (RuneError, 1)
              | Some (sz, lo, hi) \<Rightarrow>
                  if length s < sz then (RuneError, 1)
                  else
                    (let s1 = byte (s ! 1) in
                     if s1 < lo \<or> hi < s1 then (RuneError, 1)
                     else if sz \<le> 2 then ((s0 mod 32) * 64 + s1 mod 64, 2)
                     else
                       (let s2 = byte (s ! 2) in
                        if s2 < 0x80 \<or> 0xBF < s2 then (RuneError, 1)
                        else if sz \<le> 3
                          then ((s0 mod 16) * 4096 + (s1 mod 64) * 64 + s2 mod 64, 3)
                        else
                          (let s3 = byte (s ! 3) in
                           if s3 < 0x80 \<or> 0xBF < s3 then (RuneError, 1)
                           else ((s0 mod 8) * 262144 + (s1 mod 64) * 4096
                                   + (s2 mod 64) * 64 + s3 mod 64, 4)))))))"

definition RuneStart :: "char \<Rightarrow> bool" where
  "RuneStart b = (\<not> (0x80 \<le> byte b \<and> byte b \<le> 0xBF))"

text \<open>The backward search of \<^verbatim>\<open>DecodeLastRuneInString\<close> for the start of the last rune:
  from \<^verbatim>\<open>end - 2\<close> down to \<^verbatim>\<open>lim = max 0 (end - UTFMax)\<close>, stopping at a rune start;
  without one the loop leaves \<^verbatim>\<open>lim - 1\<close>, raised to 0 when negative.\<close>

definition lastRuneStart :: "string \<Rightarrow> nat" where
  "lastRuneStart s =
     (let end = length s; lim = end - 4 in
      case find (\<lambda>i. RuneStart (s ! i)) (rev [lim ..< end - 1]) of
        Some i \<Rightarrow> i
      | None \<Rightarrow> lim - 1)"

text \<open>
  \<^verbatim>\<open>utf8.DecodeLastRuneInString\<close>: the last rune of \<open>s\<close> and its width; the rune decoded
  from the start found must end exactly at the end of \<open>s\<close>.
\<close>

definition DecodeLastRuneInString :: "string \<Rightarrow> int \<times> nat" where
  "DecodeLastRuneInString s =
     (let end = length s in
      if end = 0 then (RuneError, 0)
      else if byte (s ! (end - 1)) < 0x80 then (byte (s ! (end - 1)), 1)
      else
        (let start = lastRuneStart s;
             (r, size) = DecodeRuneInString (drop start s)
         in if start + size \<noteq> end then (RuneError, 1) else (r, size)))"

text \<open>
  \<^verbatim>\<open>utf8.AppendRune\<close>: the UTF-8 bytes of a rune; a negative rune, a surrogate and a rune
  above \<^verbatim>\<open>MaxRune\<close> are written as \<^verbatim>\<open>RuneError\<close>.
\<close>

definition enc3 :: "int \<Rightarrow> string" where
  "enc3 r = [char_of (0xE0 + r div 4096), char_of (0x80 + (r div 64) mod 64),
             char_of (0x80 + r mod 64)]"

definition AppendRune :: "int \<Rightarrow> string" where
  "AppendRune r =
     (if 0 \<le> r \<and> r \<le> 0x7F then [char_of r]
      else if 0 \<le> r \<and> r \<le> 0x7FF then [char_of (0xC0 + r div 64), char_of (0x80 + r mod 64)]
      else if r < 0 \<or> 0x10FFFF < r \<or> (0xD800 \<le> r \<and> r \<le> 0xDFFF) then enc3 RuneError
      else if r \<le> 0xFFFF then enc3 r
      else [char_of (0xF0 + r div 262144), char_of (0x80 + (r div 4096) mod 64),
            char_of (0x80 + (r div 64) mod 64), char_of (0x80 + r mod 64)])"



lemma first_size: "first s0 = Some (sz, lo, hi) \<Longrightarrow> sz = 2 \<or> sz = 3 \<or> sz = 4"
  by (simp add: first_def split: if_splits)

lemma DecodeRune_size: "s \<noteq> [] \<Longrightarrow> 1 \<le> snd (DecodeRuneInString s)"
  by (simp add: DecodeRuneInString_def Let_def split: list.split option.split prod.split)

lemma DecodeRune_size_le: "snd (DecodeRuneInString s) \<le> length s"
proof (cases s)
  case Nil
  then show ?thesis by (simp add: DecodeRuneInString_def)
next
  case (Cons c0 cs)
  show ?thesis
  proof (cases "first (byte c0)")
    case None
    with Cons show ?thesis by (simp add: DecodeRuneInString_def Let_def)
  next
    case (Some t)
    obtain sz lo hi where t: "t = (sz, lo, hi)" by (cases t)
    from Some t have "sz = 2 \<or> sz = 3 \<or> sz = 4" by (simp add: first_size)
    then consider "sz = 2" | "sz = 3" | "sz = 4" by blast
    then show ?thesis
    proof cases
      case 1
      with Cons Some t show ?thesis
        by (cases cs) (simp_all add: DecodeRuneInString_def Let_def)
    next
      case 2
      with Cons Some t show ?thesis
        by (simp add: DecodeRuneInString_def Let_def not_less)
    next
      case 3
      with Cons Some t show ?thesis
        by (simp add: DecodeRuneInString_def Let_def not_less)
    qed
  qed
qed

lemma find_Some_in_set: "find P xs = Some x \<Longrightarrow> x \<in> set xs"
  by (induction xs) (auto split: if_splits)

lemma lastRuneStart_less: "s \<noteq> [] \<Longrightarrow> lastRuneStart s < length s"
proof -
  assume ne: "s \<noteq> []"
  then have len: "1 \<le> length s" by (cases s) simp_all
  show ?thesis
  proof (cases "find (\<lambda>i. RuneStart (s ! i)) (rev [length s - 4 ..< length s - 1])")
    case None
    with len show ?thesis by (simp add: lastRuneStart_def Let_def)
  next
    case (Some i)
    then have "i \<in> set (rev [length s - 4 ..< length s - 1])"
      by (rule find_Some_in_set)
    then have "i < length s - 1" by simp
    with Some show ?thesis by (simp add: lastRuneStart_def Let_def)
  qed
qed

lemma DecodeLastRune_size: "s \<noteq> [] \<Longrightarrow> 1 \<le> snd (DecodeLastRuneInString s)"
proof -
  assume ne: "s \<noteq> []"
  obtain r n where d: "DecodeRuneInString (drop (lastRuneStart s) s) = (r, n)"
    by (cases "DecodeRuneInString (drop (lastRuneStart s) s)")
  from lastRuneStart_less [OF ne] have "drop (lastRuneStart s) s \<noteq> []" by simp
  from DecodeRune_size [OF this] d have "1 \<le> n" by simp
  with ne d show ?thesis
    by (simp add: DecodeLastRuneInString_def Let_def)
qed

lemma DecodeLastRune_size_le: "snd (DecodeLastRuneInString s) \<le> length s"
proof (cases "s = []")
  case True
  then show ?thesis by (simp add: DecodeLastRuneInString_def)
next
  case False
  obtain r n where d: "DecodeRuneInString (drop (lastRuneStart s) s) = (r, n)"
    by (cases "DecodeRuneInString (drop (lastRuneStart s) s)")
  have "length s \<ge> 1" using False by (cases s) simp_all
  with False d show ?thesis
    by (simp add: DecodeLastRuneInString_def Let_def)
qed

subsection \<open>Go standard library: unicode\<close>

text \<open>
  \<^verbatim>\<open>unicode.IsSpace\<close>: in Latin-1 the eight listed characters, above it the property
  \<^verbatim>\<open>White_Space\<close>. \<^verbatim>\<open>unicode.ToLower\<close>: on ASCII the letters \<open>A\<close> to \<open>Z\<close> move to \<open>a\<close>
  to \<open>z\<close>; above ASCII the case table decides.
\<close>

definition IsSpace :: "int \<Rightarrow> bool" where
  "IsSpace r =
     (if r \<le> 0xFF then r \<in> {0x09, 0x0A, 0x0B, 0x0C, 0x0D, 0x20, 0x85, 0xA0}
      else r = 0x1680 \<or> (0x2000 \<le> r \<and> r \<le> 0x200A) \<or> r = 0x2028 \<or> r = 0x2029
           \<or> r = 0x202F \<or> r = 0x205F \<or> r = 0x3000)"

definition unicode_ToLower :: "(int \<Rightarrow> int) \<Rightarrow> int \<Rightarrow> int" where
  "unicode_ToLower caseTable r =
     (if r \<le> 0x7F then (if 0x41 \<le> r \<and> r \<le> 0x5A then r + 0x20 else r)
      else caseTable r)"

subsection \<open>Go standard library: strings\<close>

text \<open>
  \<^verbatim>\<open>indexFunc\<close> walks the runes of \<open>s\<close> from index \<open>i\<close> as \<^verbatim>\<open>for i, r := range s\<close> does
  and returns the index of the first rune on which \<open>f\<close> has the value \<open>truth\<close>, or
  \<open>-1\<close>. \<^verbatim>\<open>lastIndexFunc\<close> walks backwards from the end of the prefix \<open>p\<close>
  (\<^verbatim>\<open>s[0:i]\<close> in the Go code).
\<close>

function indexFunc :: "string \<Rightarrow> (int \<Rightarrow> bool) \<Rightarrow> bool \<Rightarrow> nat \<Rightarrow> int" where
  "indexFunc s f truth i =
     (if length s \<le> i then - 1
      else if f (fst (DecodeRuneInString (drop i s))) = truth then int i
      else indexFunc s f truth (i + snd (DecodeRuneInString (drop i s))))"
  by pat_completeness auto
termination
proof (relation "measure (\<lambda>(s, f, truth, i). length s - i)")
  show "wf (measure (\<lambda>(s, f, truth, i). length s - i))" by simp
next
  fix s :: string and f :: "int \<Rightarrow> bool" and truth :: bool and i :: nat
  assume "\<not> length s \<le> i"
  then have "drop i s \<noteq> []" by simp
  from DecodeRune_size [OF this] \<open>\<not> length s \<le> i\<close>
  show "((s, f, truth, i + snd (DecodeRuneInString (drop i s))), (s, f, truth, i))
          \<in> measure (\<lambda>(s, f, truth, i). length s - i)"
    by simp
qed

function lastIndexFunc :: "string \<Rightarrow> (int \<Rightarrow> bool) \<Rightarrow> bool \<Rightarrow> int" where
  "lastIndexFunc p f truth =
     (if p = [] then - 1
      else if f (fst (DecodeLastRuneInString p)) = truth
        then int (length p - snd (DecodeLastRuneInString p))
      else lastIndexFunc (take (length p - snd (DecodeLastRuneInString p)) p) f truth)"
  by pat_completeness auto
termination
proof (relation "measure (\<lambda>(p, f, truth). length p)")
  show "wf (measure (\<lambda>(p, f, truth). length p))" by simp
next
  fix p :: string and f :: "int \<Rightarrow> bool" and truth :: bool
  assume "p \<noteq> []"
  from DecodeLastRune_size [OF this] \<open>p \<noteq> []\<close>
  show "((take (length p - snd (DecodeLastRuneInString p)) p, f, truth), (p, f, truth))
          \<in> measure (\<lambda>(p, f, truth). length p)"
    by simp
qed

definition TrimLeftFunc :: "string \<Rightarrow> (int \<Rightarrow> bool) \<Rightarrow> string" where
  "TrimLeftFunc s f =
     (let i = indexFunc s f False 0 in if i = - 1 then [] else drop (nat i) s)"

definition TrimRightFunc :: "string \<Rightarrow> (int \<Rightarrow> bool) \<Rightarrow> string" where
  "TrimRightFunc s f =
     (let i = lastIndexFunc s f False in
      if 0 \<le> i \<and> 0x80 \<le> byte (s ! nat i)
        then take (nat i + snd (DecodeRuneInString (drop (nat i) s))) s
      else take (nat (i + 1)) s)"

definition TrimFunc :: "string \<Rightarrow> (int \<Rightarrow> bool) \<Rightarrow> string" where
  "TrimFunc s f = TrimRightFunc (TrimLeftFunc s f) f"

text \<open>
  \<^verbatim>\<open>strings.TrimSpace\<close>. The first loop skips leading ASCII space and stops at \<open>start\<close>,
  the first byte that is not ASCII space; when that byte is not ASCII the rest is handed
  to \<^verbatim>\<open>TrimFunc\<close> with \<^verbatim>\<open>unicode.IsSpace\<close>. The second loop does the same from the
  end, down to \<open>stop\<close>, and hands over to \<^verbatim>\<open>TrimRightFunc\<close>.
\<close>

definition asciiSpace :: "char \<Rightarrow> bool" where
  "asciiSpace c = (byte c \<in> {0x09, 0x0A, 0x0B, 0x0C, 0x0D, 0x20})"

definition TrimSpace :: "string \<Rightarrow> string" where
  "TrimSpace s =
     (let start = length (takeWhile asciiSpace s) in
      if start < length s \<and> 0x80 \<le> byte (s ! start) then TrimFunc (drop start s) IsSpace
      else
        (let stop = length s - length (takeWhile asciiSpace (rev (drop start s))) in
         if start < stop \<and> 0x80 \<le> byte (s ! (stop - 1))
           then TrimRightFunc (take (stop - start) (drop start s)) IsSpace
         else take (stop - start) (drop start s)))"

text \<open>
  \<^verbatim>\<open>strings.Map\<close> decodes the runes of \<open>s\<close>, maps each and encodes the results; a
  negative result is dropped, an invalid byte is read as \<^verbatim>\<open>RuneError\<close>.
  \<^verbatim>\<open>strings.ToLower\<close> lowers an all-ASCII string byte by byte and hands any other
  string to \<^verbatim>\<open>strings.Map\<close> with \<^verbatim>\<open>unicode.ToLower\<close>.
\<close>

function runes :: "string \<Rightarrow> int list" where
  "runes s =
     (if s = [] then []
      else fst (DecodeRuneInString s) # runes (drop (snd (DecodeRuneInString s)) s))"
  by pat_completeness auto
termination
proof (relation "measure length")
  show "wf (measure length)" by simp
next
  fix s :: string
  assume "s \<noteq> []"
  from DecodeRune_size [OF this] \<open>s \<noteq> []\<close>
  show "(drop (snd (DecodeRuneInString s)) s, s) \<in> measure length"
    by simp
qed

definition strings_Map :: "(int \<Rightarrow> int) \<Rightarrow> string \<Rightarrow> string" where
  "strings_Map mapping s =
     concat (map (\<lambda>c. let r = mapping c in if 0 \<le> r then AppendRune r else []) (runes s))"

definition ToLower :: "(int \<Rightarrow> int) \<Rightarrow> string \<Rightarrow> string" where
  "ToLower caseTable s =
     (if list_all (\<lambda>c. byte c < 0x80) s
      then (if \<not> list_ex (\<lambda>c. 0x41 \<le> byte c \<and> byte c \<le> 0x5A) s then s
            else map (\<lambda>c. if 0x41 \<le> byte c \<and> byte c \<le> 0x5A then char_of (byte c + 0x20) else c) s)
      else strings_Map (unicode_ToLower caseTable) s)"

text \<open>\<^verbatim>\<open>strings.Contains(s, substr)\<close>: \<open>substr\<close> occurs in \<open>s\<close> as a contiguous block.\<close>

definition Contains :: "string \<Rightarrow> string \<Rightarrow> bool" where
  "Contains s substr = sublist substr s"

subsection \<open>Go standard library: fmt and time\<close>

text \<open>
  \<^verbatim>\<open>fmtInt\<close> and \<^verbatim>\<open>fmtFrac\<close> of package time write decimal digits in front of a
  buffer; \<^verbatim>\<open>fmtFrac\<close> writes the fraction of \<open>v\<close> over \<open>10 ^ prec\<close> without its trailing
  zeros and returns the integer part.
\<close>

function fmtIntLoop :: "int \<Rightarrow> string \<Rightarrow> string" where
  "fmtIntLoop v buf = (if v \<le> 0 then buf else fmtIntLoop (v div 10) (char_of (v mod 10 + 48) # buf))"
  by pat_completeness auto
termination
  by (relation "measure (\<lambda>(v, buf). nat v)") auto

definition fmtInt :: "string \<Rightarrow> int \<Rightarrow> string" where
  "fmtInt buf v = (if v = 0 then CHR ''0'' # buf else fmtIntLoop v buf)"

text \<open>The verb \<^verbatim>\<open>%d\<close> of \<^verbatim>\<open>fmt.Sprintf\<close> on an \<^verbatim>\<open>int\<close>: the decimal digits, after a minus
  sign when negative.\<close>

definition Sprintf_d :: "int \<Rightarrow> string" where
  "Sprintf_d n = (if n < 0 then CHR ''-'' # fmtInt [] (- n) else fmtInt [] n)"

fun fmtFracLoop :: "nat \<Rightarrow> int \<Rightarrow> bool \<Rightarrow> string \<Rightarrow> string \<times> int \<times> bool" where
  "fmtFracLoop 0 v print buf = (buf, v, print)"
| "fmtFracLoop (Suc i) v print buf =
     (let digit = v mod 10;
          print' = (print \<or> digit \<noteq> 0);
          buf' = (if print' then char_of (digit + 48) # buf else buf)
      in fmtFracLoop i (v div 10) print' buf')"

definition fmtFrac :: "string \<Rightarrow> int \<Rightarrow> nat \<Rightarrow> string \<times> int" where
  "fmtFrac buf v prec =
     (let (buf', v', print) = fmtFracLoop prec v False buf
      in (if print then CHR ''.'' # buf' else buf', v'))"

text \<open>
  \<^verbatim>\<open>Duration.String\<close>, which the verb \<^verbatim>\<open>%v\<close> prints: a duration is a signed 64-bit
  count of nanoseconds, written as hours, minutes and seconds, or in a smaller unit
  below one second.
\<close>

definition Second :: "64 word" where
  "Second = 1000000000"

definition Duration_String :: "64 word \<Rightarrow> string" where
  "Duration_String d =
     (let neg = (sint d < 0);
          u = (if neg then uint (- d) else uint d)
      in if u < 1000000000 then
           (if u = 0 then ''0s''
            else
              (let (prec, unit) =
                     (if u < 1000 then (0, ''ns'')
                      else if u < 1000000 then (3, [CHR 0xC2, CHR 0xB5, CHR ''s''])
                      else (6, ''ms''));
                   (buf, u') = fmtFrac unit u prec;
                   buf' = fmtInt buf u'
               in if neg then CHR ''-'' # buf' else buf'))
         else
           (let (buf, u1) = fmtFrac ''s'' u 9;
                buf1 = fmtInt buf (u1 mod 60);
                u2 = u1 div 60;
                buf2 = (if 0 < u2
                        then (let bufm = fmtInt (CHR ''m'' # buf1) (u2 mod 60); u3 = u2 div 60
                              in if 0 < u3 then fmtInt (CHR ''h'' # bufm) u3 else bufm)
                        else buf1)
            in if neg then CHR ''-'' # buf2 else buf2))"

section \<open>Message bus\<close>

subsection \<open>pkg/bus/types.go\<close>

record InboundMessage =
  Channel :: string
  SenderID :: string
  ChatID :: string
  Content :: string
  Media :: "string list"
  SessionKey :: string
  Metadata :: "string \<rightharpoonup> string"

record OutboundMessage =
  Channel :: string
  ChatID :: string
  Content :: string

text \<open>
  \<^verbatim>\<open>type InboundInterceptor func(msg InboundMessage) bool\<close>. A Go closure may write to
  what it captured, and it may block, in a channel operation for one. So an interceptor
  takes the state \<open>'w\<close> of the captured objects and returns it as the call leaves it,
  beside the flag "consumed"; the flag is \<^term>\<open>None\<close> when the call has not returned.
\<close>

type_synonym 'w InboundInterceptor = "InboundMessage \<Rightarrow> 'w \<Rightarrow> bool option \<times> 'w"

subsection \<open>The router (pkg/bus/bus.go)\<close>

text \<open>
  Modelled from the spec: the type \<^verbatim>\<open>MessageBus\<close> of pkg/bus/bus.go, which is not among
  the sources. The router is a default queue of inbound messages, a queue of outbound
  messages and an ordered chain of interceptors (spec 4.1). A registration is an interceptor
  with the handle that removes it; handles are numbered in the order of registration.
\<close>

record 'w MessageBus =
  inbound :: "InboundMessage list"
  outbound :: "OutboundMessage list"
  interceptors :: "(nat \<times> 'w InboundInterceptor) list"
  nextID :: nat

text \<open>
  Modelled from the spec: \<^verbatim>\<open>NewMessageBus\<close> of pkg/bus/bus.go, which the tests call to get
  a router with empty queues and no interceptor.
\<close>

definition NewMessageBus :: "'w MessageBus" where
  "NewMessageBus = \<lparr>inbound = [], outbound = [], interceptors = [], nextID = 0\<rparr>"

text \<open>
  Modelled from the spec: \<^verbatim>\<open>AddInterceptor\<close> of pkg/bus/bus.go, "appends predicate to the
  chain; returns a handle". The Go function returns the closure that removes the
  registration; here it returns the handle that \<open>RemoveInterceptor\<close> takes.
\<close>

definition AddInterceptor :: "'w MessageBus \<Rightarrow> 'w InboundInterceptor \<Rightarrow> nat \<times> 'w MessageBus" where
  "AddInterceptor mb fn =
     (nextID mb, mb\<lparr>interceptors := interceptors mb @ [(nextID mb, fn)], nextID := Suc (nextID mb)\<rparr>)"

text \<open>
  Modelled from the spec: the closure returned by \<^verbatim>\<open>AddInterceptor\<close> in pkg/bus/bus.go,
  which, "when invoked, guarantees no future publish invokes this predicate again": the
  registration leaves the chain, the other registrations keep their order.
\<close>

definition RemoveInterceptor :: "'w MessageBus \<Rightarrow> nat \<Rightarrow> 'w MessageBus" where
  "RemoveInterceptor mb h = mb\<lparr>interceptors := filter (\<lambda>e. fst e \<noteq> h) (interceptors mb)\<rparr>"

text \<open>
  Modelled from the spec: the loop of \<^verbatim>\<open>PublishInbound\<close> in pkg/bus/bus.go, "evaluate
  registered interceptors in registration order; the first predicate returning consumed
  stops evaluation". It returns the handles of the interceptors it has invoked, in the
  order of invocation, the outcome, and the state of the captured objects. The outcome is
  \<open>Some True\<close> when the last interceptor invoked has consumed the message, \<open>Some False\<close>
  when every interceptor has returned "not consumed", and \<^term>\<open>None\<close> when the last
  interceptor invoked has not returned: the loop is then stopped inside that call.
\<close>

fun runInterceptors ::
  "(nat \<times> 'w InboundInterceptor) list \<Rightarrow> InboundMessage \<Rightarrow> 'w
     \<Rightarrow> nat list \<times> bool option \<times> 'w" where
  "runInterceptors [] msg w = ([], Some False, w)"
| "runInterceptors (e # rest) msg w =
     (case snd e msg w of
        (None, w') \<Rightarrow> ([fst e], None, w')
      | (Some consumed, w') \<Rightarrow>
          if consumed then ([fst e], Some True, w')
          else (let (invoked, c, w'') = runInterceptors rest msg w'
                in (fst e # invoked, c, w'')))"

text \<open>
  Modelled from the spec: \<^verbatim>\<open>PublishInbound\<close> of pkg/bus/bus.go: a consumed message "is
  dropped -- it never reaches the default queue. If none consume it, enqueue it for the
  default consumer." The first component of the result says whether the call has
  returned; it has not when an interceptor has not, and nothing is enqueued then.
\<close>

definition PublishInbound ::
  "'w MessageBus \<Rightarrow> InboundMessage \<Rightarrow> 'w \<Rightarrow> bool \<times> 'w MessageBus \<times> 'w" where
  "PublishInbound mb msg w =
     (let (invoked, outcome, w') = runInterceptors (interceptors mb) msg w in
      case outcome of
        None \<Rightarrow> (False, mb, w')
      | Some consumed \<Rightarrow>
          if consumed then (True, mb, w')
          else (True, mb\<lparr>inbound := inbound mb @ [msg]\<rparr>, w'))"

text \<open>
  Modelled from the spec: \<^verbatim>\<open>PublishOutbound\<close> of pkg/bus/bus.go, the "one-directional
  analogue for outgoing messages": the message joins the outbound queue.
\<close>

definition PublishOutbound :: "'w MessageBus \<Rightarrow> OutboundMessage \<Rightarrow> 'w MessageBus" where
  "PublishOutbound mb msg = mb\<lparr>outbound := outbound mb @ [msg]\<rparr>"

text \<open>
  Handles are handed out in increasing order, so every registered handle is below
  \<^verbatim>\<open>nextID\<close>: a new registration never shares its handle with an older one.
\<close>

definition handles_fresh :: "'w MessageBus \<Rightarrow> bool" where
  "handles_fresh mb = list_all (\<lambda>e. fst e < nextID mb) (interceptors mb)"

section \<open>Approval: requestApproval and its helpers\<close>

record ApprovalResult =
  Approved :: bool
  Reason :: string

text \<open>
  \<^verbatim>\<open>resultCh := make(chan ApprovalResult, 1)\<close> is an object that the closure and the
  \<^verbatim>\<open>select\<close> share. The channels are kept in a store, by address. A channel has its
  capacity \<open>cap\<close>, its buffer \<open>buf\<close> of the values sent and not yet received, oldest
  first, and the queue \<open>sendq\<close> of the values whose senders are blocked; \<^verbatim>\<open>make\<close>
  takes the next free address.
\<close>

record chanHeap =
  buf :: "nat \<Rightarrow> ApprovalResult list"
  cap :: "nat \<Rightarrow> nat"
  sendq :: "nat \<Rightarrow> ApprovalResult list"
  nextChan :: nat

definition make_chan :: "nat \<Rightarrow> chanHeap \<Rightarrow> nat \<times> chanHeap" where
  "make_chan n h =
     (nextChan h,
      h\<lparr>buf := (buf h)(nextChan h := []), cap := (cap h)(nextChan h := n),
        sendq := (sendq h)(nextChan h := []), nextChan := Suc (nextChan h)\<rparr>)"

text \<open>
  The send statement \<^verbatim>\<open>ch <- r\<close>. With room in the buffer the value joins the buffer and
  the statement completes: the flag returned is \<open>True\<close>. With a full buffer the sender
  blocks: its value waits in \<open>sendq\<close> and the flag is \<open>False\<close>, the statement has not
  completed. (A send also completes when a receiver is already waiting; the one receiver
  of this program is the \<^verbatim>\<open>select\<close> below, which takes a buffered value as soon as
  there is one.)
\<close>

definition send :: "nat \<Rightarrow> ApprovalResult \<Rightarrow> chanHeap \<Rightarrow> bool \<times> chanHeap" where
  "send ch r h =
     (if length (buf h ch) < cap h ch
      then (True, h\<lparr>buf := (buf h)(ch := buf h ch @ [r])\<rparr>)
      else (False, h\<lparr>sendq := (sendq h)(ch := sendq h ch @ [r])\<rparr>))"

text \<open>
  The four keyword tests: each is a \<^verbatim>\<open>switch\<close> with one \<^verbatim>\<open>case\<close> listing the words, that
  is, membership in the list. The non-Latin words are written as their UTF-8 bytes: the
  Chinese and Japanese words for approve, allow, pass, yes, acknowledge, permit, yes; and
  for refuse, veto, no, reject, no.
\<close>

definition isApproveKeyword :: "string \<Rightarrow> bool" where
  "isApproveKeyword lower = (lower \<in> set [''approve'', ''yes'', ''allow'', ''ok'', ''y''])"

definition isApproveKeywordCJK :: "string \<Rightarrow> bool" where
  "isApproveKeywordCJK s =
     (s \<in> set [[CHR 0xE6, CHR 0x89, CHR 0xB9, CHR 0xE5, CHR 0x87, CHR 0x86],
                [CHR 0xE5, CHR 0x85, CHR 0x81, CHR 0xE8, CHR 0xAE, CHR 0xB8],
                [CHR 0xE9, CHR 0x80, CHR 0x9A, CHR 0xE8, CHR 0xBF, CHR 0x87],
                [CHR 0xE6, CHR 0x98, CHR 0xAF],
                [CHR 0xE6, CHR 0x89, CHR 0xBF, CHR 0xE8, CHR 0xAA, CHR 0x8D],
                [CHR 0xE8, CHR 0xA8, CHR 0xB1, CHR 0xE5, CHR 0x8F, CHR 0xAF],
                [CHR 0xE3, CHR 0x81, CHR 0xAF, CHR 0xE3, CHR 0x81, CHR 0x84]])"

definition isDenyKeyword :: "string \<Rightarrow> bool" where
  "isDenyKeyword lower = (lower \<in> set [''deny'', ''no'', ''reject'', ''block'', ''n''])"

definition isDenyKeywordCJK :: "string \<Rightarrow> bool" where
  "isDenyKeywordCJK s =
     (s \<in> set [[CHR 0xE6, CHR 0x8B, CHR 0x92, CHR 0xE7, CHR 0xBB, CHR 0x9D],
                [CHR 0xE5, CHR 0x90, CHR 0xA6, CHR 0xE5, CHR 0x86, CHR 0xB3],
                [CHR 0xE4, CHR 0xB8, CHR 0x8D],
                [CHR 0xE6, CHR 0x8B, CHR 0x92, CHR 0xE5, CHR 0x90, CHR 0xA6],
                [CHR 0xE3, CHR 0x81, CHR 0x84, CHR 0xE3, CHR 0x81, CHR 0x84, CHR 0xE3, CHR 0x81, CHR 0x88]])"

text \<open>
  The closure that \<^verbatim>\<open>requestApproval\<close> registers. It captures \<^verbatim>\<open>resultCh\<close>, \<^verbatim>\<open>channel\<close>
  and \<^verbatim>\<open>chatID\<close>; a send on \<^verbatim>\<open>resultCh\<close> is its one effect, and \<^verbatim>\<open>return true\<close>
  is reached only once the send has completed.
\<close>

definition approvalInterceptor ::
  "(int \<Rightarrow> int) \<Rightarrow> nat \<Rightarrow> string \<Rightarrow> string \<Rightarrow> chanHeap InboundInterceptor" where
  "approvalInterceptor caseTable resultCh channel chatID msg h =
     (if InboundMessage.Channel msg \<noteq> channel \<or> InboundMessage.ChatID msg \<noteq> chatID
      then (Some False, h)
      else
        (let content = TrimSpace (InboundMessage.Content msg);
             lower = ToLower caseTable content
         in if isApproveKeyword lower \<or> isApproveKeywordCJK content
              then (let (sent, h') = send resultCh \<lparr>Approved = True, Reason = ''''\<rparr> h
                    in (if sent then Some True else None, h'))
            else if isDenyKeyword lower \<or> isDenyKeywordCJK content
              then (let (sent, h') =
                          send resultCh \<lparr>Approved = False, Reason = ''denied by user''\<rparr> h
                    in (if sent then Some True else None, h'))
            else (Some False, h)))"


text \<open>
  \<^verbatim>\<open>formatApprovalMessage\<close>: the writes to the \<^verbatim>\<open>strings.Builder\<close>, in order. The
  three string literals without a verb are named: the header (a warning sign, then
  "Security Approval Required /" and the same in Chinese, then two newlines), and the two
  instruction lines, which quote \<^verbatim>\<open>approve\<close> and \<^verbatim>\<open>deny\<close> and their Chinese
  counterparts.
\<close>

definition promptHeader :: string where
  "promptHeader =
     [CHR 0xE2, CHR 0x9A, CHR 0xA0, CHR 0xEF, CHR 0xB8, CHR 0x8F]
       @ '' Security Approval Required / ''
       @ [CHR 0xE5, CHR 0xAE, CHR 0x89, CHR 0xE5, CHR 0x85, CHR 0xA8, CHR 0xE5, CHR 0xAE, CHR 0xA1,
          CHR 0xE6, CHR 0x89, CHR 0xB9, CHR 0xE8, CHR 0xAF, CHR 0xB7, CHR 0xE6, CHR 0xB1, CHR 0x82,
          CHR 0x0A, CHR 0x0A]"

definition replyLineASCII :: string where
  "replyLineASCII =
     [CHR 0x0A] @ ''Reply '' @ [CHR 0x22] @ ''approve'' @ [CHR 0x22] @ '' to allow or ''
       @ [CHR 0x22] @ ''deny'' @ [CHR 0x22] @ '' to block.'' @ [CHR 0x0A]"

definition replyLineCJK :: string where
  "replyLineCJK =
     [CHR 0xE5, CHR 0x9B, CHR 0x9E, CHR 0xE5, CHR 0xA4, CHR 0x8D] @ '' ''
       @ [CHR 0x22, CHR 0xE6, CHR 0x89, CHR 0xB9, CHR 0xE5, CHR 0x87, CHR 0x86, CHR 0x22] @ '' ''
       @ [CHR 0xE5, CHR 0x85, CHR 0x81, CHR 0xE8, CHR 0xAE, CHR 0xB8, CHR 0xE6, CHR 0x89, CHR 0xA7,
          CHR 0xE8, CHR 0xA1, CHR 0x8C, CHR 0xEF, CHR 0xBC, CHR 0x8C, CHR 0xE5, CHR 0x9B, CHR 0x9E,
          CHR 0xE5, CHR 0xA4, CHR 0x8D] @ '' ''
       @ [CHR 0x22, CHR 0xE6, CHR 0x8B, CHR 0x92, CHR 0xE7, CHR 0xBB, CHR 0x9D, CHR 0x22] @ '' ''
       @ [CHR 0xE9, CHR 0x98, CHR 0xBB, CHR 0xE6, CHR 0xAD, CHR 0xA2, CHR 0xE6, CHR 0x89, CHR 0xA7,
          CHR 0xE8, CHR 0xA1, CHR 0x8C, CHR 0xE3, CHR 0x80, CHR 0x82, CHR 0x0A]"

definition formatApprovalMessage :: "Violation \<Rightarrow> 64 word \<Rightarrow> string" where
  "formatApprovalMessage v timeoutSec =
     promptHeader
     @ (''Category: '' @ Category v @ [CHR 0x0A])
     @ (if Tool v \<noteq> [] then ''Tool: '' @ Tool v @ [CHR 0x0A] else [])
     @ (if Action v \<noteq> [] then ''Action: '' @ Action v @ [CHR 0x0A] else [])
     @ (''Reason: '' @ Violation.Reason v @ [CHR 0x0A])
     @ (if RuleName v \<noteq> [] then ''Rule: '' @ RuleName v @ [CHR 0x0A] else [])
     @ replyLineASCII
     @ replyLineCJK
     @ (if 0 < sint timeoutSec
        then ''Auto-deny in '' @ Sprintf_d (sint timeoutSec) @ '' seconds.'' @ [CHR 0x0A]
        else [])"

text \<open>
  \<^verbatim>\<open>timeout := time.Duration(pe.config.ApprovalTimeout) * time.Second\<close>, a product of
  64-bit signed integers, which wraps around in Go; then the default of 300 seconds when
  the product is not positive.
\<close>

definition approvalTimeout :: "SecurityConfig \<Rightarrow> 64 word" where
  "approvalTimeout config =
     (let timeout = ApprovalTimeout config * Second
      in if sint timeout \<le> 0 then 300 * Second else timeout)"

subsection \<open>Errors, and the events of one wait\<close>

text \<open>
  A Go \<^verbatim>\<open>error\<close> is either built by \<^verbatim>\<open>fmt.Errorf\<close> from a message, or one of the two
  values that \<^verbatim>\<open>ctx.Err()\<close> returns once \<^verbatim>\<open>ctx.Done()\<close> is closed. The result
  \<^verbatim>\<open>nil\<close> is \<^term>\<open>None\<close>.
\<close>

datatype ctx_error = Canceled | DeadlineExceeded

datatype error = Errorf string | ContextErr ctx_error

fun Error :: "error \<Rightarrow> string" where
  "Error (Errorf s) = s"
| "Error (ContextErr Canceled) = ''context canceled''"
| "Error (ContextErr DeadlineExceeded) = ''context deadline exceeded''"

text \<open>
  What happens while \<^verbatim>\<open>requestApproval\<close> is blocked in its \<^verbatim>\<open>select\<close>: a connector
  publishes an inbound message on the bus, the timer of \<^verbatim>\<open>time.After(timeout)\<close> fires,
  or the context is done. The events come one at a time and the waiting goroutine runs
  as soon as one of its channels is ready; two cases ready at once, between which Go
  chooses at random, are two orders of the list.
\<close>

datatype event = Arrives InboundMessage | TimerFires | CtxDone ctx_error

datatype selected = FromResultCh ApprovalResult | FromTimer | FromDone ctx_error

text \<open>
  The receive \<^verbatim>\<open><-ch\<close>, ready when the channel holds a value: it takes the oldest value
  of the buffer, and the value of the first blocked sender, if there is one, moves into
  the room made (that sender's statement completes). On an empty buffer it takes the
  value of the first blocked sender directly, which is the case of a channel without
  buffer. \<^term>\<open>None\<close>: the receive is not ready.
\<close>

definition recv :: "nat \<Rightarrow> chanHeap \<Rightarrow> (ApprovalResult \<times> chanHeap) option" where
  "recv ch h =
     (case buf h ch of
        [] \<Rightarrow>
          (case sendq h ch of
             [] \<Rightarrow> None
           | s # parked \<Rightarrow> Some (s, h\<lparr>sendq := (sendq h)(ch := parked)\<rparr>))
      | r # rest \<Rightarrow>
          (case sendq h ch of
             [] \<Rightarrow> Some (r, h\<lparr>buf := (buf h)(ch := rest)\<rparr>)
           | s # parked \<Rightarrow>
               Some (r, h\<lparr>buf := (buf h)(ch := rest @ [s]),
                          sendq := (sendq h)(ch := parked)\<rparr>)))"

text \<open>
  The \<^verbatim>\<open>select\<close> statement: \<^term>\<open>None\<close> while no case is ready and no event is left.
  A publish changes the bus and the channels whether or not the publisher's call has
  returned; the waiting goroutine goes on either way.
\<close>

fun selectWait ::
  "nat \<Rightarrow> chanHeap MessageBus \<times> chanHeap \<Rightarrow> event list
     \<Rightarrow> ((chanHeap MessageBus \<times> chanHeap) \<times> selected) option" where
  "selectWait resultCh (mb, h) [] =
     (case recv resultCh h of
        Some (r, h') \<Rightarrow> Some ((mb, h'), FromResultCh r)
      | None \<Rightarrow> None)"
| "selectWait resultCh (mb, h) (ev # evs) =
     (case recv resultCh h of
        Some (r, h') \<Rightarrow> Some ((mb, h'), FromResultCh r)
      | None \<Rightarrow>
          (case ev of
             Arrives msg \<Rightarrow> selectWait resultCh (snd (PublishInbound mb msg h)) evs
           | TimerFires \<Rightarrow> Some ((mb, h), FromTimer)
           | CtxDone e \<Rightarrow> Some ((mb, h), FromDone e)))"

text \<open>The bodies of the three cases of the \<^verbatim>\<open>select\<close>.\<close>

fun selectResult :: "64 word \<Rightarrow> selected \<Rightarrow> error option" where
  "selectResult timeout (FromResultCh result) =
     (if Approved result then None
      else Some (Errorf (''denied by user: '' @ ApprovalResult.Reason result)))"
| "selectResult timeout FromTimer =
     Some (Errorf (''approval timed out after '' @ Duration_String timeout))"
| "selectResult timeout (FromDone e) = Some (ContextErr e)"

text \<open>
  \<^verbatim>\<open>requestApproval\<close>: make the channel, register the interceptor, publish the prompt,
  wait; the deferred \<^verbatim>\<open>removeInterceptor()\<close> runs when the function returns. The
  engine \<^verbatim>\<open>pe\<close> is its configuration, a parameter, and its bus, which is part of the
  state; both pointers are taken to be set, as in every test that reaches this function.
  The result is \<^term>\<open>None\<close> while the function has not returned.
\<close>

definition requestApproval ::
  "(int \<Rightarrow> int) \<Rightarrow> SecurityConfig \<Rightarrow> Violation \<Rightarrow> string \<Rightarrow> string
     \<Rightarrow> chanHeap MessageBus \<times> chanHeap \<Rightarrow> event list
     \<Rightarrow> ((chanHeap MessageBus \<times> chanHeap) \<times> error option) option" where
  "requestApproval caseTable config v channel chatID st events =
     (let (resultCh, h1) = make_chan 1 (snd st);
          (removeInterceptor, mb1) =
             AddInterceptor (fst st) (approvalInterceptor caseTable resultCh channel chatID);
          mb2 = PublishOutbound mb1
                  \<lparr>OutboundMessage.Channel = channel, ChatID = chatID,
                   Content = formatApprovalMessage v (ApprovalTimeout config)\<rparr>;
          timeout = approvalTimeout config
      in case selectWait resultCh (mb2, h1) events of
           None \<Rightarrow> None
         | Some ((mb3, h3), sel) \<Rightarrow>
             Some ((RemoveInterceptor mb3 removeInterceptor, h3), selectResult timeout sel))"

text \<open>
  The bus and the channels at the moment \<^verbatim>\<open>requestApproval\<close> enters its \<^verbatim>\<open>select\<close>: the
  channel is made, the interceptor registered and the prompt published.
\<close>

definition waiting ::
  "(int \<Rightarrow> int) \<Rightarrow> SecurityConfig \<Rightarrow> Violation \<Rightarrow> string \<Rightarrow> string
     \<Rightarrow> chanHeap MessageBus \<times> chanHeap \<Rightarrow> chanHeap MessageBus \<times> chanHeap" where
  "waiting caseTable config v channel chatID st =
     (PublishOutbound
        (snd (AddInterceptor (fst st)
                (approvalInterceptor caseTable (nextChan (snd st)) channel chatID)))
        \<lparr>OutboundMessage.Channel = channel, ChatID = chatID,
         Content = formatApprovalMessage v (ApprovalTimeout config)\<rparr>,
      snd (make_chan 1 (snd st)))"

subsection \<open>pkg/security/policy.go: Evaluate\<close>

definition Evaluate ::
  "(int \<Rightarrow> int) \<Rightarrow> SecurityConfig \<Rightarrow> PolicyMode \<Rightarrow> Violation \<Rightarrow> string \<Rightarrow> string
     \<Rightarrow> chanHeap MessageBus \<times> chanHeap \<Rightarrow> event list
     \<Rightarrow> ((chanHeap MessageBus \<times> chanHeap) \<times> error option) option" where
  "Evaluate caseTable config mode v channel chatID st events =
     (if IsOff mode then Some (st, None)
      else if mode = ModeBlock then
        Some (st, Some (Errorf (''blocked by security policy ['' @ Category v @ '']: ''
                                  @ Violation.Reason v)))
      else if mode = ModeApprove then
        (if channel = [] \<or> channel = ''cli'' then
           Some (st, Some (Errorf (''blocked by security policy ['' @ Category v @ '']: ''
                                     @ Violation.Reason v
                                     @ '' (approve mode unavailable in CLI)'')))
         else requestApproval caseTable config v channel chatID st events)
      else Some (st, None))"

subsection \<open>Values of the test suite\<close>

text \<open>The configuration, the violation and the messages that \<^verbatim>\<open>policy_test.go\<close> uses.\<close>

definition testConfig :: SecurityConfig where
  "testConfig = \<lparr>ExecGuard = [], SSRFProtection = [], PathValidation = [],
                  SkillValidation = [], ApprovalTimeout = 5\<rparr>"

definition testViolation :: Violation where
  "testViolation = \<lparr>Category = ''exec_guard'', Tool = ''exec'', Action = ''rm -rf /tmp/test'',
                     Reason = ''dangerous pattern'', RuleName = []\<rparr>"

definition testMessage :: "string \<Rightarrow> string \<Rightarrow> string \<Rightarrow> InboundMessage" where
  "testMessage channel chatID content =
     \<lparr>InboundMessage.Channel = channel, SenderID = [], ChatID = chatID, Content = content,
      Media = [], SessionKey = [], Metadata = Map.empty\<rparr>"

definition noChans :: chanHeap where
  "noChans = \<lparr>buf = (\<lambda>_. []), cap = (\<lambda>_. 0), sendq = (\<lambda>_. []), nextChan = 0\<rparr>"

text \<open>The two interceptors of \<^verbatim>\<open>TestMessageBus_MultipleInterceptors\<close>, which log their
  names in the captured list \<^verbatim>\<open>order\<close>; the second consumes \<^verbatim>\<open>stop-at-second\<close>.\<close>

definition orderBus :: "string list MessageBus" where
  "orderBus =
     snd (AddInterceptor
            (snd (AddInterceptor NewMessageBus (\<lambda>msg order. (Some False, order @ [''first'']))))
            (\<lambda>msg order. (Some (InboundMessage.Content msg = ''stop-at-second''),
                            order @ [''second''])))"

text \<open>A case table that lowers the Kelvin sign U+212A to \<open>k\<close>, as Unicode does, and nothing else.\<close>

definition kelvinTable :: "int \<Rightarrow> int" where
  "kelvinTable r = (if r = 0x212A then 0x6B else r)"

text \<open>A bus on which one interceptor is registered already: it declines every message and
  captures nothing.\<close>

definition listenerBus :: "chanHeap MessageBus" where
  "listenerBus = snd (AddInterceptor NewMessageBus (\<lambda>msg h. (Some False, h)))"

subsection \<open>The accepted replies, as the specification lists them\<close>

text \<open>
  An approve keyword: one of \<open>approve\<close>, \<open>yes\<close>, \<open>allow\<close>, \<open>ok\<close>, \<open>y\<close> in any
  letter case (the word lowered by \<^verbatim>\<open>strings.ToLower\<close> is in the set), or exactly one of
  the seven Chinese and Japanese words. A deny keyword: one of \<open>deny\<close>, \<open>no\<close>,
  \<open>reject\<close>, \<open>block\<close>, \<open>n\<close> in any letter case, or exactly one of the five Chinese and
  Japanese words.
\<close>

definition approveReply :: "(int \<Rightarrow> int) \<Rightarrow> string \<Rightarrow> bool" where
  "approveReply caseTable s =
     (ToLower caseTable s \<in> {''approve'', ''yes'', ''allow'', ''ok'', ''y''}
      \<or> s \<in> {[CHR 0xE6, CHR 0x89, CHR 0xB9, CHR 0xE5, CHR 0x87, CHR 0x86],
              [CHR 0xE5, CHR 0x85, CHR 0x81, CHR 0xE8, CHR 0xAE, CHR 0xB8],
              [CHR 0xE9, CHR 0x80, CHR 0x9A, CHR 0xE8, CHR 0xBF, CHR 0x87],
              [CHR 0xE6, CHR 0x98, CHR 0xAF],
              [CHR 0xE6, CHR 0x89, CHR 0xBF, CHR 0xE8, CHR 0xAA, CHR 0x8D],
              [CHR 0xE8, CHR 0xA8, CHR 0xB1, CHR 0xE5, CHR 0x8F, CHR 0xAF],
              [CHR 0xE3, CHR 0x81, CHR 0xAF, CHR 0xE3, CHR 0x81, CHR 0x84]})"






section \<open>Mode lookup\<close>

lemma GetMode_outside:
  "rawMode config category = None \<Longrightarrow> GetMode config category = ModeOff"
  by (simp add: GetMode_def)

lemma GetMode_unrecognised:
  "rawMode config category = Some raw \<Longrightarrow> raw \<noteq> ''block'' \<Longrightarrow> raw \<noteq> ''approve''
   \<Longrightarrow> GetMode config category = ModeOff"
  by (simp add: GetMode_def ModeBlock_def ModeApprove_def)

text \<open>
  C7. A category outside the fixed set \<open>exec_guard\<close>, \<open>ssrf\<close>, \<open>path_validation\<close>,
  \<open>skill_validation\<close> looks up as off. For each category of the fixed set, a configured
  string other than \<open>block\<close> and \<open>approve\<close> (the empty string and \<open>unknown\<close> among them)
  looks up as off.
\<close>

theorem GetMode_fail_open:
  "(category \<notin> {''exec_guard'', ''ssrf'', ''path_validation'', ''skill_validation''}
      \<longrightarrow> GetMode config category = ModeOff)
   \<and> (ExecGuard config \<notin> {''block'', ''approve''}
      \<longrightarrow> GetMode config ''exec_guard'' = ModeOff)
   \<and> (SSRFProtection config \<notin> {''block'', ''approve''}
      \<longrightarrow> GetMode config ''ssrf'' = ModeOff)
   \<and> (PathValidation config \<notin> {''block'', ''approve''}
      \<longrightarrow> GetMode config ''path_validation'' = ModeOff)
   \<and> (SkillValidation config \<notin> {''block'', ''approve''}
      \<longrightarrow> GetMode config ''skill_validation'' = ModeOff)"
proof (intro conjI impI)
  assume "category \<notin> {''exec_guard'', ''ssrf'', ''path_validation'', ''skill_validation''}"
  then have "rawMode config category = None"
    by (simp add: rawMode_def)
  then show "GetMode config category = ModeOff"
    by (rule GetMode_outside)
next
  assume "ExecGuard config \<notin> {''block'', ''approve''}"
  then show "GetMode config ''exec_guard'' = ModeOff"
    by (intro GetMode_unrecognised [where raw = "ExecGuard config"]) (simp_all add: rawMode_def)
next
  assume "SSRFProtection config \<notin> {''block'', ''approve''}"
  then show "GetMode config ''ssrf'' = ModeOff"
    by (intro GetMode_unrecognised [where raw = "SSRFProtection config"]) (simp_all add: rawMode_def)
next
  assume "PathValidation config \<notin> {''block'', ''approve''}"
  then show "GetMode config ''path_validation'' = ModeOff"
    by (intro GetMode_unrecognised [where raw = "PathValidation config"]) (simp_all add: rawMode_def)
next
  assume "SkillValidation config \<notin> {''block'', ''approve''}"
  then show "GetMode config ''skill_validation'' = ModeOff"
    by (intro GetMode_unrecognised [where raw = "SkillValidation config"]) (simp_all add: rawMode_def)
qed

theorem GetMode_fail_open_witness:
  "GetMode \<lparr>ExecGuard = ''unknown'', SSRFProtection = '''', PathValidation = ''off'',
            SkillValidation = ''BLOCK'', ApprovalTimeout = 5\<rparr> ''unknown_category'' = ModeOff
   \<and> GetMode \<lparr>ExecGuard = ''unknown'', SSRFProtection = '''', PathValidation = ''off'',
            SkillValidation = ''BLOCK'', ApprovalTimeout = 5\<rparr> ''exec_guard'' = ModeOff
   \<and> GetMode \<lparr>ExecGuard = ''unknown'', SSRFProtection = '''', PathValidation = ''off'',
            SkillValidation = ''BLOCK'', ApprovalTimeout = 5\<rparr> ''ssrf'' = ModeOff
   \<and> GetMode \<lparr>ExecGuard = ''unknown'', SSRFProtection = '''', PathValidation = ''off'',
            SkillValidation = ''BLOCK'', ApprovalTimeout = 5\<rparr> ''path_validation'' = ModeOff
   \<and> GetMode \<lparr>ExecGuard = ''unknown'', SSRFProtection = '''', PathValidation = ''off'',
            SkillValidation = ''BLOCK'', ApprovalTimeout = 5\<rparr> ''skill_validation'' = ModeOff"
  using GetMode_fail_open [of "''unknown_category''"
      "\<lparr>ExecGuard = ''unknown'', SSRFProtection = '''', PathValidation = ''off'',
        SkillValidation = ''BLOCK'', ApprovalTimeout = 5\<rparr>"]
  by simp

section \<open>Evaluate: the synchronous modes\<close>

lemma Contains_mid: "Contains (a @ b @ c) b"
  by (simp add: Contains_def)

lemma Contains_append_left: "Contains s x \<Longrightarrow> Contains (a @ s) x"
  by (auto simp add: Contains_def sublist_append)

text \<open>
  C8. In block mode \<open>Evaluate\<close> returns an error for every violation, channel and chat
  identifier (and whatever happens on the bus), and the error message contains the
  violation's category and its reason. The bus is left as it was.
\<close>

theorem Evaluate_block_fails:
  "\<exists>msg. Evaluate caseTable config ModeBlock v channel chatID st events
            = Some (st, Some (Errorf msg))
         \<and> Contains msg (Category v) \<and> Contains msg (Violation.Reason v)"
proof -
  let ?msg = "''blocked by security policy ['' @ Category v @ '']: '' @ Violation.Reason v"
  have "Evaluate caseTable config ModeBlock v channel chatID st events = Some (st, Some (Errorf ?msg))"
    by (simp add: Evaluate_def IsOff_def ModeBlock_def ModeOff_def)
  moreover have "Contains ?msg (Category v)"
    by (rule Contains_mid)
  moreover have "Contains ?msg (Violation.Reason v)"
    using Contains_mid [of "''blocked by security policy ['' @ Category v @ '']: ''"
        "Violation.Reason v" "[]"]
    by simp
  ultimately show ?thesis by blast
qed

text \<open>
  C10. A mode that is none of the empty string, \<open>off\<close>, \<open>block\<close> and \<open>approve\<close> makes
  \<open>Evaluate\<close> return \<open>nil\<close> and leave bus and channels as they were: the default branch
  of its switch allows.
\<close>

theorem Evaluate_unrecognised_mode:
  "mode \<notin> {'''', ''off'', ''block'', ''approve''}
   \<Longrightarrow> Evaluate caseTable config mode v channel chatID st events = Some (st, None)"
  by (simp add: Evaluate_def IsOff_def ModeBlock_def ModeOff_def ModeApprove_def)

theorem Evaluate_unrecognised_mode_witness:
  "Evaluate (\<lambda>r. r) testConfig ''unknown'' testViolation ''telegram'' ''chat1''
     (NewMessageBus, noChans) [] = Some ((NewMessageBus, noChans), None)"
  using Evaluate_unrecognised_mode [of "''unknown''" "\<lambda>r. r" testConfig testViolation
      "''telegram''" "''chat1''" "(NewMessageBus, noChans)" "[]"]
  by simp

lemma Evaluate_no_reply_path:
  assumes "channel = [] \<or> channel = ''cli''"
  shows "Evaluate caseTable config ModeApprove v channel chatID st events =
           Some (st, Some (Errorf (''blocked by security policy ['' @ Category v @ '']: ''
                                     @ Violation.Reason v @ '' (approve mode unavailable in CLI)'')))"
  using assms by (auto simp add: Evaluate_def IsOff_def ModeBlock_def ModeOff_def ModeApprove_def)

lemma unavailable_mentioned:
  "Contains (a @ b @ '' (approve mode unavailable in CLI)'') ''unavailable''"
proof -
  have "Contains ('' (approve mode '' @ ''unavailable'' @ '' in CLI)'') ''unavailable''"
    by (rule Contains_mid)
  then have "Contains '' (approve mode unavailable in CLI)'' ''unavailable''"
    by simp
  then have "Contains ((a @ b) @ '' (approve mode unavailable in CLI)'') ''unavailable''"
    by (rule Contains_append_left)
  then show ?thesis by simp
qed

text \<open>
  C6. In approve mode with the empty channel or the channel \<open>cli\<close>, \<open>Evaluate\<close> returns
  an error whose message mentions that approval is unavailable, for every violation and
  chat identifier. It returns the bus and the channels unchanged: nothing is published
  and no interceptor is registered.
\<close>

theorem Evaluate_approve_unavailable:
  "(\<exists>msg. Evaluate caseTable config ModeApprove v [] chatID st events
             = Some (st, Some (Errorf msg))
          \<and> Contains msg ''unavailable'')
   \<and> (\<exists>msg. Evaluate caseTable config ModeApprove v ''cli'' chatID st events
             = Some (st, Some (Errorf msg))
          \<and> Contains msg ''unavailable'')"
  using Evaluate_no_reply_path [of "[]" caseTable config v chatID st events]
    Evaluate_no_reply_path [of "''cli''" caseTable config v chatID st events]
    unavailable_mentioned [of "''blocked by security policy ['' @ Category v @ '']: ''"
      "Violation.Reason v"]
  by simp

section \<open>The approval prompt\<close>















section \<open>The router\<close>

lemma runInterceptors_prefix:
  "runInterceptors chain msg w = (invoked, outcome, w') \<Longrightarrow> prefix invoked (map fst chain)"
proof (induction chain arbitrary: w invoked outcome w')
  case Nil
  then show ?case by simp
next
  case (Cons e rest)
  obtain r w1 where e: "snd e msg w = (r, w1)" by (cases "snd e msg w")
  show ?case
  proof (cases "r = Some False")
    case False
    with Cons.prems e show ?thesis by (cases r) auto
  next
    case True
    obtain inv2 c2 w2 where run: "runInterceptors rest msg w1 = (inv2, c2, w2)"
      by (cases "runInterceptors rest msg w1")
    from Cons.IH [OF run] have "prefix inv2 (map fst rest)" .
    with Cons.prems e True run show ?thesis by auto
  qed
qed

lemma runInterceptors_none:
  "runInterceptors chain msg w = (invoked, Some False, w') \<Longrightarrow> invoked = map fst chain"
proof (induction chain arbitrary: w invoked w')
  case Nil
  then show ?case by simp
next
  case (Cons e rest)
  obtain r w1 where e: "snd e msg w = (r, w1)" by (cases "snd e msg w")
  obtain inv2 c2 w2 where run: "runInterceptors rest msg w1 = (inv2, c2, w2)"
    by (cases "runInterceptors rest msg w1")
  from Cons.prems e run have r: "r = Some False" and c2: "c2 = Some False"
    and inv: "invoked = fst e # inv2"
    by (auto split: option.splits if_splits)
  from Cons.IH [of w1 inv2 w2] run c2 have "inv2 = map fst rest" by simp
  with inv show ?case by simp
qed

lemma runInterceptors_first:
  "runInterceptors chain msg w = (invoked, outcome, w') \<Longrightarrow> outcome \<noteq> Some False \<Longrightarrow>
   \<exists>pre e post w0. chain = pre @ e # post \<and> invoked = map fst pre @ [fst e]
      \<and> runInterceptors pre msg w = (map fst pre, Some False, w0) \<and> snd e msg w0 = (outcome, w')"
proof (induction chain arbitrary: w invoked w')
  case Nil
  then show ?case by simp
next
  case (Cons e rest)
  obtain r w1 where e: "snd e msg w = (r, w1)" by (cases "snd e msg w")
  show ?case
  proof (cases "r = Some False")
    case False
    with Cons.prems(1) e have "invoked = [fst e]" and "w' = w1" and "outcome = r"
      by (cases r; simp)+
    with e have "e # rest = [] @ e # rest \<and> invoked = map fst [] @ [fst e]
      \<and> runInterceptors [] msg w = (map fst [], Some False, w) \<and> snd e msg w = (outcome, w')"
      by simp
    then show ?thesis by blast
  next
    case True
    obtain inv2 c2 w2 where run: "runInterceptors rest msg w1 = (inv2, c2, w2)"
      by (cases "runInterceptors rest msg w1")
    from Cons.prems(1) e True run have c2: "c2 = outcome" and inv: "invoked = fst e # inv2"
      and w2: "w2 = w'"
      by simp_all
    from Cons.IH [of w1 inv2 w'] run c2 w2 Cons.prems(2) obtain pre e' post w0 where
      d: "rest = pre @ e' # post" "inv2 = map fst pre @ [fst e']"
        "runInterceptors pre msg w1 = (map fst pre, Some False, w0)" "snd e' msg w0 = (outcome, w')"
      by auto
    from d e True inv have "e # rest = (e # pre) @ e' # post
        \<and> invoked = map fst (e # pre) @ [fst e']
        \<and> runInterceptors (e # pre) msg w = (map fst (e # pre), Some False, w0)
        \<and> snd e' msg w0 = (outcome, w')"
      by simp
    then show ?thesis by blast
  qed
qed

lemma runInterceptors_append:
  "runInterceptors pre msg w = (ids, Some False, w0) \<Longrightarrow>
   runInterceptors (pre @ rest) msg w =
     (let (ids', c, w'') = runInterceptors rest msg w0 in (ids @ ids', c, w''))"
proof (induction pre arbitrary: w ids)
  case Nil
  then show ?case by (simp split: prod.split)
next
  case (Cons e pre)
  obtain r w1 where e: "snd e msg w = (r, w1)" by (cases "snd e msg w")
  obtain inv2 c2 w2 where run: "runInterceptors pre msg w1 = (inv2, c2, w2)"
    by (cases "runInterceptors pre msg w1")
  from Cons.prems e run have r: "r = Some False" and c2: "c2 = Some False"
    and inv: "ids = fst e # inv2" and w2: "w2 = w0"
    by (auto split: option.splits if_splits)
  from Cons.IH [of w1 inv2] run c2 w2
  have "runInterceptors (pre @ rest) msg w1 =
     (let (ids', c, w'') = runInterceptors rest msg w0 in (inv2 @ ids', c, w''))"
    by simp
  with e r inv show ?case
    by (simp split: prod.split)
qed

lemma runInterceptors_stops:
  assumes "chain = pre @ e # post"
    and "runInterceptors pre msg w = (map fst pre, Some False, w0)"
    and "snd e msg w0 = (outcome, w')" and "outcome \<noteq> Some False"
  shows "runInterceptors chain msg w = (map fst pre @ [fst e], outcome, w')"
proof -
  from assms(3,4) have "runInterceptors (e # post) msg w0 = ([fst e], outcome, w')"
    by (cases outcome) auto
  with runInterceptors_append [OF assms(2), of "e # post"] assms(1) show ?thesis
    by simp
qed

text \<open>
  C2. Publishing an inbound message runs the interceptors in the order of the chain, which
  is the order of registration (\<open>AddInterceptor\<close> appends): the handles invoked are a
  prefix of the chain's handles. The message counts as consumed exactly when some
  interceptor of the chain, reached after every interceptor before it has declined, returns
  "consumed"; that interceptor is the last one invoked. If every interceptor declines, every
  interceptor of the chain has been invoked. The message is appended to the default queue
  exactly when every interceptor has declined, and otherwise the bus is left as it was. So,
  for a publish that returns, the message is enqueued exactly when it was not consumed. An
  interceptor is a Go function and need not return; the publish has then not returned
  either, that interceptor is the last one invoked, and nothing is enqueued.
\<close>

theorem PublishInbound_routing:
  assumes run: "runInterceptors (interceptors mb) msg w = (invoked, outcome, w')"
  shows "prefix invoked (map fst (interceptors mb))
     \<and> (outcome = Some True) = (\<exists>pre e post w0. interceptors mb = pre @ e # post
                      \<and> invoked = map fst pre @ [fst e]
                      \<and> runInterceptors pre msg w = (map fst pre, Some False, w0)
                      \<and> snd e msg w0 = (Some True, w'))
     \<and> (outcome = Some False \<longrightarrow> invoked = map fst (interceptors mb))
     \<and> PublishInbound mb msg w =
         (outcome \<noteq> None,
          if outcome = Some False then mb\<lparr>inbound := inbound mb @ [msg]\<rparr> else mb, w')
     \<and> (inbound (fst (snd (PublishInbound mb msg w))) = inbound mb @ [msg])
         = (outcome = Some False)
     \<and> (\<forall>consumed. outcome = Some consumed \<longrightarrow>
           (inbound (fst (snd (PublishInbound mb msg w))) = inbound mb @ [msg]) = (\<not> consumed))
     \<and> (outcome = None) = (\<exists>pre e post w0. interceptors mb = pre @ e # post
                      \<and> invoked = map fst pre @ [fst e]
                      \<and> runInterceptors pre msg w = (map fst pre, Some False, w0)
                      \<and> snd e msg w0 = (None, w'))
     \<and> interceptors (snd (AddInterceptor mb fn)) = interceptors mb @ [(nextID mb, fn)]"
proof -
  have order: "prefix invoked (map fst (interceptors mb))"
    using run by (rule runInterceptors_prefix)
  have stops: "(outcome = r) = (\<exists>pre e post w0. interceptors mb = pre @ e # post
                      \<and> invoked = map fst pre @ [fst e]
                      \<and> runInterceptors pre msg w = (map fst pre, Some False, w0)
                      \<and> snd e msg w0 = (r, w'))" if r: "r \<noteq> Some False" for r
  proof
    assume "outcome = r"
    with run r have "runInterceptors (interceptors mb) msg w = (invoked, r, w')" and "r \<noteq> Some False"
      by simp_all
    then show "\<exists>pre e post w0. interceptors mb = pre @ e # post
                      \<and> invoked = map fst pre @ [fst e]
                      \<and> runInterceptors pre msg w = (map fst pre, Some False, w0)
                      \<and> snd e msg w0 = (r, w')"
      by (rule runInterceptors_first)
  next
    assume "\<exists>pre e post w0. interceptors mb = pre @ e # post
                      \<and> invoked = map fst pre @ [fst e]
                      \<and> runInterceptors pre msg w = (map fst pre, Some False, w0)
                      \<and> snd e msg w0 = (r, w')"
    then obtain pre e post w0 where d: "interceptors mb = pre @ e # post"
      "runInterceptors pre msg w = (map fst pre, Some False, w0)" "snd e msg w0 = (r, w')"
      by blast
    from runInterceptors_stops [OF d r]
    have "runInterceptors (interceptors mb) msg w = (map fst pre @ [fst e], r, w')" .
    with run show "outcome = r" by simp
  qed
  have first: "(outcome = Some True) = (\<exists>pre e post w0. interceptors mb = pre @ e # post
                      \<and> invoked = map fst pre @ [fst e]
                      \<and> runInterceptors pre msg w = (map fst pre, Some False, w0)
                      \<and> snd e msg w0 = (Some True, w'))"
    by (rule stops) simp
  have stuck: "(outcome = None) = (\<exists>pre e post w0. interceptors mb = pre @ e # post
                      \<and> invoked = map fst pre @ [fst e]
                      \<and> runInterceptors pre msg w = (map fst pre, Some False, w0)
                      \<and> snd e msg w0 = (None, w'))"
    by (rule stops) simp
  have all: "outcome = Some False \<longrightarrow> invoked = map fst (interceptors mb)"
    using run by (auto dest: runInterceptors_none)
  have pub: "PublishInbound mb msg w =
         (outcome \<noteq> None,
          if outcome = Some False then mb\<lparr>inbound := inbound mb @ [msg]\<rparr> else mb, w')"
    using run by (cases outcome) (simp_all add: PublishInbound_def)
  have queue: "(inbound (fst (snd (PublishInbound mb msg w))) = inbound mb @ [msg])
         = (outcome = Some False)"
    by (simp add: pub)
  have returned: "\<forall>consumed. outcome = Some consumed \<longrightarrow>
           (inbound (fst (snd (PublishInbound mb msg w))) = inbound mb @ [msg]) = (\<not> consumed)"
    by (simp add: pub)
  have reg: "interceptors (snd (AddInterceptor mb fn)) = interceptors mb @ [(nextID mb, fn)]"
    by (simp add: AddInterceptor_def)
  from order first all pub queue returned stuck reg show ?thesis
    by (intro conjI)
qed

lemma orderBus_chain:
  "interceptors orderBus =
     [(0, \<lambda>msg order. (Some False, order @ [''first''])),
      (1, \<lambda>msg order. (Some (InboundMessage.Content msg = ''stop-at-second''),
                         order @ [''second'']))]"
  by (simp add: orderBus_def AddInterceptor_def NewMessageBus_def)

theorem PublishInbound_routing_witness:
  "runInterceptors (interceptors orderBus) (testMessage [] [] ''stop-at-second'') []
     = ([0, 1], Some True, [''first'', ''second''])
   \<and> PublishInbound orderBus (testMessage [] [] ''stop-at-second'') []
     = (True, orderBus, [''first'', ''second''])
   \<and> inbound (fst (snd (PublishInbound orderBus (testMessage [] [] ''stop-at-second'') []))) = []
   \<and> runInterceptors (interceptors orderBus) (testMessage [] [] ''pass'') []
     = ([0, 1], Some False, [''first'', ''second''])
   \<and> inbound (fst (snd (PublishInbound orderBus (testMessage [] [] ''pass'') [])))
     = [testMessage [] [] ''pass'']"
proof -
  have stop: "runInterceptors (interceptors orderBus) (testMessage [] [] ''stop-at-second'') []
     = ([0, 1], Some True, [''first'', ''second''])"
    by (simp add: orderBus_chain testMessage_def)
  have pass: "runInterceptors (interceptors orderBus) (testMessage [] [] ''pass'') []
     = ([0, 1], Some False, [''first'', ''second''])"
    by (simp add: orderBus_chain testMessage_def)
  have empty: "inbound orderBus = []"
    by (simp add: orderBus_def AddInterceptor_def NewMessageBus_def)
  from PublishInbound_routing [OF stop] PublishInbound_routing [OF pass] stop pass empty
  show ?thesis by simp
qed

section \<open>One approval cycle: what the wait leaves unchanged\<close>

lemma handles_fresh_New: "handles_fresh NewMessageBus"
  by (simp add: handles_fresh_def NewMessageBus_def)

lemma handles_fresh_Add: "handles_fresh mb \<Longrightarrow> handles_fresh (snd (AddInterceptor mb fn))"
  by (auto simp add: handles_fresh_def AddInterceptor_def list_all_iff)

lemma handles_fresh_Remove: "handles_fresh mb \<Longrightarrow> handles_fresh (RemoveInterceptor mb i)"
  by (auto simp add: handles_fresh_def RemoveInterceptor_def list_all_iff)

lemma Remove_Add:
  assumes "handles_fresh mb"
  shows "filter (\<lambda>e. fst e \<noteq> nextID mb) (interceptors mb @ [(nextID mb, fn)]) = interceptors mb"
proof -
  from assms have "\<forall>e \<in> set (interceptors mb). fst e \<noteq> nextID mb"
    by (auto simp add: handles_fresh_def list_all_iff)
  then have "filter (\<lambda>e. fst e \<noteq> nextID mb) (interceptors mb) = interceptors mb"
    by (simp add: filter_id_conv)
  then show ?thesis by simp
qed

lemma PublishInbound_frame:
  assumes "PublishInbound mb msg w = (ret, mb', w')"
  shows "outbound mb' = outbound mb \<and> interceptors mb' = interceptors mb \<and> nextID mb' = nextID mb"
proof -
  obtain invoked consumed w1 where "runInterceptors (interceptors mb) msg w = (invoked, consumed, w1)"
    by (cases "runInterceptors (interceptors mb) msg w")
  with assms show ?thesis
    by (cases consumed) (auto simp add: PublishInbound_def split: if_splits)
qed


lemma selectWait_frame:
  "selectWait ch (mb, h) evs = Some ((mb', h'), sel) \<Longrightarrow>
   outbound mb' = outbound mb \<and> interceptors mb' = interceptors mb \<and> nextID mb' = nextID mb"
proof (induction evs arbitrary: mb h)
  case Nil
  then show ?case by (auto split: option.splits prod.splits)
next
  case (Cons ev evs)
  show ?case
  proof (cases "recv ch h")
    case (Some a)
    with Cons.prems show ?thesis by (auto split: option.splits prod.splits)
  next
    case None
    show ?thesis
    proof (cases ev)
      case (Arrives msg)
      obtain ret mb1 h1 where p: "PublishInbound mb msg h = (ret, mb1, h1)"
        by (cases "PublishInbound mb msg h")
      with Cons.prems None Arrives have "selectWait ch (mb1, h1) evs = Some ((mb', h'), sel)"
        by simp
      from Cons.IH [OF this] PublishInbound_frame [OF p] show ?thesis
        by simp
    next
      case TimerFires
      with Cons.prems None show ?thesis by simp
    next
      case (CtxDone e)
      with Cons.prems None show ?thesis by simp
    qed
  qed
qed

lemma selectWait_pending_Done:
  "selectWait ch (mb, h) pre = None \<Longrightarrow>
   \<exists>mb' h'. selectWait ch (mb, h) (pre @ CtxDone cause # post) = Some ((mb', h'), FromDone cause)"
proof (induction pre arbitrary: mb h)
  case Nil
  then show ?case by (auto split: option.splits)
next
  case (Cons ev pre)
  from Cons.prems have none: "recv ch h = None"
    by (auto split: option.splits)
  show ?case
  proof (cases ev)
    case (Arrives msg)
    obtain ret mb1 h1 where p: "PublishInbound mb msg h = (ret, mb1, h1)"
      by (cases "PublishInbound mb msg h")
    with Cons.prems none Arrives have "selectWait ch (mb1, h1) pre = None"
      by simp
    from Cons.IH [OF this] none Arrives p show ?thesis
      by simp
  next
    case TimerFires
    with Cons.prems none show ?thesis by simp
  next
    case (CtxDone e)
    with Cons.prems none show ?thesis by simp
  qed
qed

lemma selectWait_pending_Timer:
  "selectWait ch (mb, h) pre = None \<Longrightarrow>
   \<exists>mb' h'. selectWait ch (mb, h) (pre @ TimerFires # post) = Some ((mb', h'), FromTimer)"
proof (induction pre arbitrary: mb h)
  case Nil
  then show ?case by (auto split: option.splits)
next
  case (Cons ev pre)
  from Cons.prems have none: "recv ch h = None"
    by (auto split: option.splits)
  show ?case
  proof (cases ev)
    case (Arrives msg)
    obtain ret mb1 h1 where p: "PublishInbound mb msg h = (ret, mb1, h1)"
      by (cases "PublishInbound mb msg h")
    with Cons.prems none Arrives have "selectWait ch (mb1, h1) pre = None"
      by simp
    from Cons.IH [OF this] none Arrives p show ?thesis
      by simp
  next
    case TimerFires
    with Cons.prems none show ?thesis by simp
  next
    case (CtxDone e)
    with Cons.prems none show ?thesis by simp
  qed
qed

lemma requestApproval_unfold:
  "requestApproval caseTable config v channel chatID st events =
     (case selectWait (nextChan (snd st)) (waiting caseTable config v channel chatID st) events of
        None \<Rightarrow> None
      | Some ((mb3, h3), sel) \<Rightarrow>
          Some ((RemoveInterceptor mb3 (nextID (fst st)), h3),
                selectResult (approvalTimeout config) sel))"
  by (simp add: requestApproval_def waiting_def make_chan_def AddInterceptor_def Let_def)

lemma waiting_bus:
  "outbound (fst (waiting caseTable config v channel chatID st)) =
     outbound (fst st) @ [\<lparr>OutboundMessage.Channel = channel, ChatID = chatID,
         Content = formatApprovalMessage v (ApprovalTimeout config)\<rparr>]"
  "interceptors (fst (waiting caseTable config v channel chatID st)) =
     interceptors (fst st) @ [(nextID (fst st), approvalInterceptor caseTable (nextChan (snd st)) channel chatID)]"
  "nextID (fst (waiting caseTable config v channel chatID st)) = Suc (nextID (fst st))"
  by (simp_all add: waiting_def PublishOutbound_def AddInterceptor_def)

lemma requestApproval_scoped:
  assumes fresh: "handles_fresh mb"
    and ret: "requestApproval caseTable config v channel chatID (mb, h) events = Some ((mb', h'), res)"
  shows "outbound mb' = outbound mb @ [\<lparr>OutboundMessage.Channel = channel, ChatID = chatID,
            Content = formatApprovalMessage v (ApprovalTimeout config)\<rparr>]
     \<and> interceptors mb' = interceptors mb
     \<and> nextID mb' = Suc (nextID mb)
     \<and> handles_fresh mb'"
proof -
  obtain mbw hw where w: "waiting caseTable config v channel chatID (mb, h) = (mbw, hw)"
    by (cases "waiting caseTable config v channel chatID (mb, h)")
  from ret obtain mb3 h3 sel where
    sw: "selectWait (nextChan h) (mbw, hw) events = Some ((mb3, h3), sel)"
    and mb': "mb' = RemoveInterceptor mb3 (nextID mb)"
    by (auto simp add: requestApproval_unfold w split: option.splits)
  from selectWait_frame [OF sw] waiting_bus [of caseTable config v channel chatID "(mb, h)"] w
  have 3: "outbound mb3 = outbound mb @ [\<lparr>OutboundMessage.Channel = channel, ChatID = chatID,
            Content = formatApprovalMessage v (ApprovalTimeout config)\<rparr>]"
    "interceptors mb3 = interceptors mb @ [(nextID mb, approvalInterceptor caseTable (nextChan h) channel chatID)]"
    "nextID mb3 = Suc (nextID mb)"
    by simp_all
  from 3 mb' Remove_Add [OF fresh] have i: "interceptors mb' = interceptors mb"
    by (simp add: RemoveInterceptor_def)
  from 3 mb' have o: "outbound mb' = outbound mb @ [\<lparr>OutboundMessage.Channel = channel, ChatID = chatID,
            Content = formatApprovalMessage v (ApprovalTimeout config)\<rparr>]"
    and n: "nextID mb' = Suc (nextID mb)"
    by (simp_all add: RemoveInterceptor_def)
  from fresh i n have "handles_fresh mb'"
    by (auto simp add: handles_fresh_def list_all_iff)
  with i o n show ?thesis by simp
qed


lemma requestApproval_returns:
  assumes "TimerFires \<in> set events \<or> (\<exists>e. CtxDone e \<in> set events)"
  shows "requestApproval caseTable config v channel chatID st events \<noteq> None"
proof -
  have "selectWait ch (mb, h) evs \<noteq> None"
    if "TimerFires \<in> set evs \<or> (\<exists>e. CtxDone e \<in> set evs)" for ch mb h evs
    using that
  proof (induction evs arbitrary: mb h)
    case Nil
    then show ?case by simp
  next
    case (Cons ev evs)
    show ?case
    proof (cases "recv ch h")
      case (Some a)
      then show ?thesis by (auto split: prod.splits)
    next
      case None
      show ?thesis
      proof (cases ev)
        case (Arrives msg)
        obtain ret mb1 h1 where p: "PublishInbound mb msg h = (ret, mb1, h1)"
          by (cases "PublishInbound mb msg h")
        from Cons.prems Arrives have "TimerFires \<in> set evs \<or> (\<exists>e. CtxDone e \<in> set evs)"
          by auto
        from Cons.IH [OF this, of mb1 h1] None Arrives p show ?thesis by simp
      next
        case TimerFires
        with None show ?thesis by simp
      next
        case (CtxDone e)
        with None show ?thesis by simp
      qed
    qed
  qed
  from this [OF assms, of "nextChan (snd st)" "fst (waiting caseTable config v channel chatID st)"
      "snd (waiting caseTable config v channel chatID st)"]
  show ?thesis
    by (auto simp add: requestApproval_unfold split: option.splits)
qed

lemma Error_not_timeout:
  "Error (ContextErr cause) \<noteq> ''approval timed out after '' @ d"
  by (cases cause) simp_all

section \<open>The approval interceptor\<close>


































lemma reply_oK:
  "approveReply kelvinTable (TrimSpace (InboundMessage.Content
      (testMessage ''telegram'' ''chat123'' (''o'' @ [CHR 0xE2, CHR 0x84, CHR 0xAA]))))"
  by code_simp









section \<open>One approval cycle: registration, result and cancellation\<close>





text \<open>
  C5. Let an approval cycle be blocked in its wait after the events \<open>pre\<close>. When the
  context is done next, the cycle returns at once, whatever would follow. Its result is
  the error \<^verbatim>\<open>ctx.Err()\<close>, which says why the context is done
  (\<^verbatim>\<open>context.Canceled\<close> or \<^verbatim>\<open>context.DeadlineExceeded\<close>; here \<open>cause\<close>). At the
  end of the wait the chain of interceptors was the chain from before the cycle followed by
  the cycle's registration; the bus returned is the bus at the end of the wait with that
  registration removed, so its chain is the one from before the cycle and the cycle's
  handle is not in it. The error differs from the error of an approval timeout, as a value
  and in its message, whatever the timeout.
\<close>

theorem requestApproval_cancelled:
  assumes fresh: "handles_fresh mb"
    and pending: "requestApproval caseTable config v channel chatID (mb, h) pre = None"
  shows "\<exists>mb' h'.
           requestApproval caseTable config v channel chatID (mb, h) (pre @ CtxDone cause # post)
             = Some ((mb', h'), Some (ContextErr cause))
           \<and> interceptors mb' = interceptors mb
           \<and> nextID mb \<notin> fst ` set (interceptors mb')
           \<and> (\<exists>mb3. selectWait (nextChan h) (waiting caseTable config v channel chatID (mb, h))
                         (pre @ CtxDone cause # post)
                       = Some ((mb3, h'), FromDone cause)
                     \<and> interceptors mb3 = interceptors mb
                          @ [(nextID mb, approvalInterceptor caseTable (nextChan h) channel chatID)]
                     \<and> mb' = RemoveInterceptor mb3 (nextID mb))
           \<and> outbound mb' = outbound mb @ [\<lparr>OutboundMessage.Channel = channel, ChatID = chatID,
                  Content = formatApprovalMessage v (ApprovalTimeout config)\<rparr>]
           \<and> nextID mb' = Suc (nextID mb)
           \<and> (\<forall>timeout. Some (ContextErr cause) \<noteq> selectResult timeout FromTimer)
           \<and> (\<forall>timeout. Error (ContextErr cause)
                  \<noteq> ''approval timed out after '' @ Duration_String timeout)"
proof -
  obtain mbw hw where w: "waiting caseTable config v channel chatID (mb, h) = (mbw, hw)"
    by (cases "waiting caseTable config v channel chatID (mb, h)")
  from pending have "selectWait (nextChan h) (mbw, hw) pre = None"
    by (auto simp add: requestApproval_unfold w split: option.splits)
  from selectWait_pending_Done [OF this, of cause post] obtain mb3 h3 where
    sw: "selectWait (nextChan h) (mbw, hw) (pre @ CtxDone cause # post) = Some ((mb3, h3), FromDone cause)"
    by blast
  then have req: "requestApproval caseTable config v channel chatID (mb, h) (pre @ CtxDone cause # post)
      = Some ((RemoveInterceptor mb3 (nextID mb), h3), Some (ContextErr cause))"
    by (simp add: requestApproval_unfold w)
  from selectWait_frame [OF sw] waiting_bus(2) [of caseTable config v channel chatID "(mb, h)"] w
  have during: "interceptors mb3 = interceptors mb
          @ [(nextID mb, approvalInterceptor caseTable (nextChan h) channel chatID)]"
    by simp
  from requestApproval_scoped [OF fresh req]
  have state: "outbound (RemoveInterceptor mb3 (nextID mb))
        = outbound mb @ [\<lparr>OutboundMessage.Channel = channel, ChatID = chatID,
            Content = formatApprovalMessage v (ApprovalTimeout config)\<rparr>]"
    "interceptors (RemoveInterceptor mb3 (nextID mb)) = interceptors mb"
    "nextID (RemoveInterceptor mb3 (nextID mb)) = Suc (nextID mb)"
    by simp_all
  have gone: "nextID mb \<notin> fst ` set (interceptors (RemoveInterceptor mb3 (nextID mb)))"
    by (auto simp add: RemoveInterceptor_def)
  have inner: "\<exists>mb3'. selectWait (nextChan h) (waiting caseTable config v channel chatID (mb, h))
                         (pre @ CtxDone cause # post)
                       = Some ((mb3', h3), FromDone cause)
                     \<and> interceptors mb3' = interceptors mb
                          @ [(nextID mb, approvalInterceptor caseTable (nextChan h) channel chatID)]
                     \<and> RemoveInterceptor mb3 (nextID mb) = RemoveInterceptor mb3' (nextID mb)"
  proof (intro exI [of _ mb3] conjI)
    from sw w show "selectWait (nextChan h) (waiting caseTable config v channel chatID (mb, h))
                         (pre @ CtxDone cause # post)
                       = Some ((mb3, h3), FromDone cause)"
      by simp
    show "interceptors mb3 = interceptors mb
            @ [(nextID mb, approvalInterceptor caseTable (nextChan h) channel chatID)]"
      by (rule during)
    show "RemoveInterceptor mb3 (nextID mb) = RemoveInterceptor mb3 (nextID mb)" ..
  qed
  have distinct: "\<forall>timeout. Some (ContextErr cause) \<noteq> selectResult timeout FromTimer"
    by simp
  have message: "\<forall>timeout. Error (ContextErr cause)
                  \<noteq> ''approval timed out after '' @ Duration_String timeout"
    using Error_not_timeout [of cause] by blast
  from req state(2) gone inner state(1) state(3) distinct message
  have "requestApproval caseTable config v channel chatID (mb, h) (pre @ CtxDone cause # post)
             = Some ((RemoveInterceptor mb3 (nextID mb), h3), Some (ContextErr cause))
           \<and> interceptors (RemoveInterceptor mb3 (nextID mb)) = interceptors mb
           \<and> nextID mb \<notin> fst ` set (interceptors (RemoveInterceptor mb3 (nextID mb)))
           \<and> (\<exists>mb3'. selectWait (nextChan h) (waiting caseTable config v channel chatID (mb, h))
                         (pre @ CtxDone cause # post)
                       = Some ((mb3', h3), FromDone cause)
                     \<and> interceptors mb3' = interceptors mb
                          @ [(nextID mb, approvalInterceptor caseTable (nextChan h) channel chatID)]
                     \<and> RemoveInterceptor mb3 (nextID mb) = RemoveInterceptor mb3' (nextID mb))
           \<and> outbound (RemoveInterceptor mb3 (nextID mb))
                = outbound mb @ [\<lparr>OutboundMessage.Channel = channel, ChatID = chatID,
                  Content = formatApprovalMessage v (ApprovalTimeout config)\<rparr>]
           \<and> nextID (RemoveInterceptor mb3 (nextID mb)) = Suc (nextID mb)
           \<and> (\<forall>timeout. Some (ContextErr cause) \<noteq> selectResult timeout FromTimer)
           \<and> (\<forall>timeout. Error (ContextErr cause)
                  \<noteq> ''approval timed out after '' @ Duration_String timeout)"
    by (intro conjI)
  then show ?thesis
    by - (rule exI [of _ "RemoveInterceptor mb3 (nextID mb)"], rule exI [of _ h3])
qed

lemma handles_fresh_listenerBus: "handles_fresh listenerBus"
  by (simp add: listenerBus_def handles_fresh_Add handles_fresh_New)

lemma listenerBus_chain: "map fst (interceptors listenerBus) = [0]"
  by (simp add: listenerBus_def AddInterceptor_def NewMessageBus_def)

theorem requestApproval_cancelled_witness:
  "handles_fresh listenerBus
   \<and> requestApproval kelvinTable testConfig testViolation ''telegram'' ''chat123''
        (listenerBus, noChans) [Arrives (testMessage ''telegram'' ''chat123'' ''hello'')] = None
   \<and> (\<exists>mb' h'. requestApproval kelvinTable testConfig testViolation ''telegram'' ''chat123''
        (listenerBus, noChans)
        [Arrives (testMessage ''telegram'' ''chat123'' ''hello''), CtxDone Canceled,
         Arrives (testMessage ''telegram'' ''chat123'' ''approve'')]
          = Some ((mb', h'), Some (ContextErr Canceled))
        \<and> map fst (interceptors mb') = [0]
        \<and> nextID mb' = 2
        \<and> (\<exists>mb3. selectWait 0
                (waiting kelvinTable testConfig testViolation ''telegram'' ''chat123''
                   (listenerBus, noChans))
                [Arrives (testMessage ''telegram'' ''chat123'' ''hello''), CtxDone Canceled,
                 Arrives (testMessage ''telegram'' ''chat123'' ''approve'')]
              = Some ((mb3, h'), FromDone Canceled)
            \<and> map fst (interceptors mb3) = [0, 1]
            \<and> mb' = RemoveInterceptor mb3 1))"
proof -
  define pre where "pre = [Arrives (testMessage ''telegram'' ''chat123'' ''hello'')]"
  define post where "post = [Arrives (testMessage ''telegram'' ''chat123'' ''approve'')]"
  define st where "st = waiting kelvinTable testConfig testViolation ''telegram'' ''chat123''
                   (listenerBus, noChans)"
  define run where "run = requestApproval kelvinTable testConfig testViolation ''telegram'' ''chat123''
        (listenerBus, noChans)"
  have events: "pre @ CtxDone Canceled # post
      = [Arrives (testMessage ''telegram'' ''chat123'' ''hello''), CtxDone Canceled,
         Arrives (testMessage ''telegram'' ''chat123'' ''approve'')]"
    by (simp add: pre_def post_def)
  have "requestApproval kelvinTable testConfig testViolation ''telegram'' ''chat123''
        (listenerBus, noChans) [Arrives (testMessage ''telegram'' ''chat123'' ''hello'')] = None"
    by code_simp
  then have pending: "requestApproval kelvinTable testConfig testViolation ''telegram'' ''chat123''
        (listenerBus, noChans) pre = None"
    by (simp only: pre_def)
  have new: "nextID listenerBus = 1" "nextChan noChans = 0"
    by (simp_all add: listenerBus_def AddInterceptor_def NewMessageBus_def noChans_def)
  from requestApproval_cancelled [OF handles_fresh_listenerBus pending, of Canceled post]
  have "\<exists>mb' h'. run (pre @ CtxDone Canceled # post) = Some ((mb', h'), Some (ContextErr Canceled))
        \<and> interceptors mb' = interceptors listenerBus
        \<and> (\<exists>mb3. selectWait 0 st (pre @ CtxDone Canceled # post) = Some ((mb3, h'), FromDone Canceled)
              \<and> interceptors mb3 = interceptors listenerBus
                   @ [(1, approvalInterceptor kelvinTable 0 ''telegram'' ''chat123'')]
              \<and> mb' = RemoveInterceptor mb3 1)
        \<and> nextID mb' = Suc 1"
    unfolding new st_def run_def by blast
  then obtain mb' h' mb3 where
    ret: "run (pre @ CtxDone Canceled # post) = Some ((mb', h'), Some (ContextErr Canceled))"
    and after: "interceptors mb' = interceptors listenerBus" "nextID mb' = Suc 1"
    and during: "selectWait 0 st (pre @ CtxDone Canceled # post) = Some ((mb3, h'), FromDone Canceled)"
      "interceptors mb3 = interceptors listenerBus
          @ [(1, approvalInterceptor kelvinTable 0 ''telegram'' ''chat123'')]"
      "mb' = RemoveInterceptor mb3 1"
    by blast
  from after have a: "map fst (interceptors mb') = [0]" "nextID mb' = 2"
    by (simp_all add: listenerBus_chain)
  from during(2) have d: "map fst (interceptors mb3) = [0, 1]"
    by (simp add: listenerBus_chain)
  from ret a during(1,3) d
  have "\<exists>mb' h'. run (pre @ CtxDone Canceled # post) = Some ((mb', h'), Some (ContextErr Canceled))
        \<and> map fst (interceptors mb') = [0]
        \<and> nextID mb' = 2
        \<and> (\<exists>mb3. selectWait 0 st (pre @ CtxDone Canceled # post) = Some ((mb3, h'), FromDone Canceled)
            \<and> map fst (interceptors mb3) = [0, 1]
            \<and> mb' = RemoveInterceptor mb3 1)"
    by (intro exI conjI)
  then have "\<exists>mb' h'. requestApproval kelvinTable testConfig testViolation ''telegram'' ''chat123''
        (listenerBus, noChans)
        [Arrives (testMessage ''telegram'' ''chat123'' ''hello''), CtxDone Canceled,
         Arrives (testMessage ''telegram'' ''chat123'' ''approve'')]
          = Some ((mb', h'), Some (ContextErr Canceled))
        \<and> map fst (interceptors mb') = [0]
        \<and> nextID mb' = 2
        \<and> (\<exists>mb3. selectWait 0
                (waiting kelvinTable testConfig testViolation ''telegram'' ''chat123''
                   (listenerBus, noChans))
                [Arrives (testMessage ''telegram'' ''chat123'' ''hello''), CtxDone Canceled,
                 Arrives (testMessage ''telegram'' ''chat123'' ''approve'')]
              = Some ((mb3, h'), FromDone Canceled)
            \<and> map fst (interceptors mb3) = [0, 1]
            \<and> mb' = RemoveInterceptor mb3 1)"
    unfolding events st_def run_def .
  moreover from pending have "requestApproval kelvinTable testConfig testViolation ''telegram'' ''chat123''
        (listenerBus, noChans) [Arrives (testMessage ''telegram'' ''chat123'' ''hello'')] = None"
    by (simp only: pre_def)
  ultimately show ?thesis
    using handles_fresh_listenerBus by (intro conjI)
qed

lemma Contains_timed_out: "Contains (''approval timed out after '' @ d) ''timed out''"
proof -
  have "Contains (''approval '' @ ''timed out'' @ '' after '' @ d) ''timed out''"
    by (rule Contains_mid)
  then show ?thesis by simp
qed

lemma Contains_denied: "Contains (''denied by user: '' @ r) ''denied''"
proof -
  have "Contains ([] @ ''denied'' @ '' by user: '' @ r) ''denied''"
    by (rule Contains_mid)
  then show ?thesis by simp
qed

lemma selectResult_mapping:
  "selectResult timeout (FromResultCh \<lparr>Approved = True, Reason = r\<rparr>) = None"
  "selectResult timeout (FromResultCh \<lparr>Approved = False, Reason = r\<rparr>)
     = Some (Errorf (''denied by user: '' @ r))"
  "selectResult timeout FromTimer
     = Some (Errorf (''approval timed out after '' @ Duration_String timeout))"
  "selectResult timeout (FromDone e) = Some (ContextErr e)"
  by simp_all

lemma requestApproval_timed_out:
  assumes pending: "requestApproval caseTable config v channel chatID (mb, h) pre = None"
  shows "\<exists>mb' h'.
           requestApproval caseTable config v channel chatID (mb, h) (pre @ TimerFires # post)
             = Some ((mb', h'),
                 Some (Errorf (''approval timed out after ''
                                 @ Duration_String (approvalTimeout config))))"
proof -
  obtain mbw hw where w: "waiting caseTable config v channel chatID (mb, h) = (mbw, hw)"
    by (cases "waiting caseTable config v channel chatID (mb, h)")
  from pending have "selectWait (nextChan h) (mbw, hw) pre = None"
    by (auto simp add: requestApproval_unfold w split: option.splits)
  from selectWait_pending_Timer [OF this, of post] obtain mb3 h3 where
    "selectWait (nextChan h) (mbw, hw) (pre @ TimerFires # post) = Some ((mb3, h3), FromTimer)"
    by blast
  then show ?thesis
    by (simp add: requestApproval_unfold w)
qed

lemma sint_Second: "sint Second = 1000000000"
  by (simp add: Second_def)

lemma approvalTimeout_in_range:
  assumes lo: "- 9223372036 \<le> sint (ApprovalTimeout config)"
    and hi: "sint (ApprovalTimeout config) \<le> 9223372036"
  shows "sint (approvalTimeout config) =
           (if sint (ApprovalTimeout config) \<le> 0 then 300000000000
            else sint (ApprovalTimeout config) * 1000000000)"
proof -
  let ?t = "sint (ApprovalTimeout config)"
  from lo hi have "- (2 ^ 63) \<le> ?t * 1000000000" and "?t * 1000000000 < 2 ^ 63"
    by simp_all
  then have "signed_take_bit 63 (?t * 1000000000) = ?t * 1000000000"
    by (rule signed_take_bit_int_eq_self)
  then have prod: "sint (ApprovalTimeout config * Second) = ?t * 1000000000"
    by (simp add: sint_word_mult sint_Second)
  have dflt: "sint (300 * Second :: 64 word) = 300000000000"
    by (simp add: Second_def)
  from prod dflt show ?thesis
    by (simp add: approvalTimeout_def Let_def)
qed

lemma requestApproval_result:
  assumes "requestApproval caseTable config v channel chatID st events = Some (st', res)"
  shows "\<exists>sel. res = selectResult (approvalTimeout config) sel"
  using assms by (auto simp add: requestApproval_unfold split: option.splits prod.splits)

text \<open>
  C4. The three cases of the wait map to results as specified (\<open>selectResult_mapping\<close>,
  \<open>requestApproval_result\<close>, \<open>requestApproval_timed_out\<close>), and for a configured number of
  seconds between \<open>-9223372036\<close> and \<open>9223372036\<close> the timeout is that number of seconds,
  or 300 seconds when the number is not positive (\<open>approvalTimeout_in_range\<close>). Outside
  this range the product with \<^verbatim>\<open>time.Second\<close> wraps around. With
  \<open>ApprovalTimeout = 9223372037\<close> the product is negative: the cycle waits for the default
  of 300 seconds and reports "timed out after 5m0s", although its prompt announced
  "Auto-deny in 9223372037 seconds.". With \<open>-9223372037\<close>, a non-positive value, the
  product is positive and no default is taken. With \<open>18446744074\<close> the timeout is
  290448384 nanoseconds.
\<close>

theorem approvalTimeout_wraps_around:
  "approvalTimeout (testConfig\<lparr>ApprovalTimeout := 9223372037\<rparr>) = 300 * Second
   \<and> map_option snd (requestApproval kelvinTable (testConfig\<lparr>ApprovalTimeout := 9223372037\<rparr>)
         testViolation ''telegram'' ''chat789'' (NewMessageBus, noChans) [TimerFires])
       = Some (Some (Errorf ''approval timed out after 5m0s''))
   \<and> suffix (''Auto-deny in 9223372037 seconds.'' @ [CHR 0x0A])
         (formatApprovalMessage testViolation 9223372037)
   \<and> sint (approvalTimeout (testConfig\<lparr>ApprovalTimeout := - 9223372037\<rparr>)) = 9223372036709551616
   \<and> sint (approvalTimeout (testConfig\<lparr>ApprovalTimeout := 18446744074\<rparr>)) = 290448384"
proof -
  have a: "approvalTimeout (testConfig\<lparr>ApprovalTimeout := 9223372037\<rparr>) = 300 * Second"
    by code_simp
  have b: "map_option snd (requestApproval kelvinTable (testConfig\<lparr>ApprovalTimeout := 9223372037\<rparr>)
         testViolation ''telegram'' ''chat789'' (NewMessageBus, noChans) [TimerFires])
       = Some (Some (Errorf ''approval timed out after 5m0s''))"
    by code_simp
  have c: "suffix (''Auto-deny in 9223372037 seconds.'' @ [CHR 0x0A])
         (formatApprovalMessage testViolation 9223372037)"
    by code_simp
  have d: "sint (approvalTimeout (testConfig\<lparr>ApprovalTimeout := - 9223372037\<rparr>)) = 9223372036709551616"
    by code_simp
  have e: "sint (approvalTimeout (testConfig\<lparr>ApprovalTimeout := 18446744074\<rparr>)) = 290448384"
    by code_simp
  from a b c d e show ?thesis
    by (intro conjI)
qed

end
